theory Spec2Isabelle
  imports Complex_Main
begin

section \<open>Values\<close>

text \<open>
  The income-record service of \<^verbatim>\<open>server.js\<close>, with the two endpoints that only the
  earlier server listed in \<^verbatim>\<open>README.md\<close> has (statistics and health).

  A request body is a JSON object; a field that is missing reads as JavaScript's
  \<^verbatim>\<open>undefined\<close>, which is \<open>None\<close> here. A number is the rational that a finite double
  is; infinities, the sign of zero and the rounding of the one product that the list
  handler computes are outside the model, and the arithmetic of the store in the
  statistics is a parameter. A string is the list of its UTF-16 code units, here those
  below 256 (the characters of Latin-1), one \<open>char\<close> each. A date is its number of
  milliseconds since the epoch.
\<close>

datatype json =
    JNull
  | JBool bool
  | JNum rat
  | JStr string
  | JArr "json list"
  | JObj "(string \<times> json) list"

type_synonym body = "string \<Rightarrow> json option"

text \<open>What Express hands over as \<^verbatim>\<open>req.query\<close>: strings, arrays and nested objects.\<close>

datatype qv =
    QStr string
  | QArr "qv list"
  | QObj "(string \<times> qv) list"

type_synonym object_id = string
type_synonym js_date = int

text \<open>
  A stored document of the model \<^verbatim>\<open>IncomeRecord\<close>. \<open>rec_id\<close> is the field \<^verbatim>\<open>_id\<close>. The
  category of a stored document is a string or \<^verbatim>\<open>null\<close> (\<open>None\<close>).
\<close>

record income_record =
  rec_id :: object_id
  description :: string
  amount :: rat
  date :: js_date
  category :: "string option"
  createdAt :: js_date
  updatedAt :: js_date

text \<open>The collection, in insertion order.\<close>

type_synonym store = "income_record list"

section \<open>What the libraries do\<close>

text \<open>
  Express, Mongoose and the JavaScript runtime are not part of the repository. Their
  conversions are parameters of the model, so every theorem below holds whatever they
  compute:
  \<^item> \<open>str_to_num\<close>: JavaScript's conversion of a string to a number, \<open>None\<close> for \<^verbatim>\<open>NaN\<close>;
  \<^item> \<open>cast_str\<close>, \<open>cast_num\<close>, \<open>cast_date\<close>: Mongoose's casts to \<^verbatim>\<open>String\<close>,
    \<^verbatim>\<open>Number\<close> and \<^verbatim>\<open>Date\<close> on the values whose cast is not fixed below, \<open>None\<close> when the
    cast fails;
  \<^item> \<open>cast_oid\<close>: the cast of a path parameter to an \<^verbatim>\<open>ObjectId\<close>;
  \<^item> \<open>enum_accepts_null\<close>: whether the \<^verbatim>\<open>enum\<close> validator lets \<^verbatim>\<open>null\<close> pass (it does
    from Mongoose 6 on, and did not before);
  \<^item> \<open>select\<close>: the documents a filter object matches, \<open>None\<close> when Mongoose or the
    store refuses the filter;
  \<^item> \<open>order_by\<close>: the store's sort for a Mongoose sort string;
  \<^item> \<open>odd_window\<close>: what the store returns of a result for a skip or a limit that is
    not a whole number, a skip below 0 or a limit below 1, \<open>None\<close> when it refuses the
    query.
\<close>

record platform =
  str_to_num :: "string \<Rightarrow> rat option"
  cast_str :: "json \<Rightarrow> string option"
  cast_num :: "json \<Rightarrow> rat option"
  cast_date :: "json \<Rightarrow> js_date option"
  cast_oid :: "string \<Rightarrow> object_id option"
  enum_accepts_null :: bool
  select :: "qv \<Rightarrow> (income_record \<Rightarrow> bool) option"
  order_by :: "string \<Rightarrow> income_record list \<Rightarrow> income_record list"
  odd_window :: "rat \<Rightarrow> rat \<Rightarrow> income_record list \<Rightarrow> income_record list option"

section \<open>Errors and responses\<close>

text \<open>
  One failed path of a validation: a validator's message, or a failed cast to the named
  type.
\<close>

datatype field_error = ValidatorError string | CastError string

text \<open>
  \<^verbatim>\<open>err.message\<close>. The message of a Mongoose \<^verbatim>\<open>ValidationError\<close> is made of its failed
  paths and their messages. The order in which Mongoose lists them is its own (failed
  casts come before failed validators) and is not modelled: the message is kept here as
  the set of the failed paths with their errors. The message of a \<^verbatim>\<open>CastError\<close> names the
  type and the path. \<open>Unmodelled\<close> is a text of the runtime or the driver.
\<close>

datatype message =
    ValidationFailed "(string \<times> field_error) set"
  | CastFailed string string
  | Unmodelled

text \<open>
  A thrown error, with the two properties the error middleware reads. Nothing that
  Mongoose or the runtime throws sets \<^verbatim>\<open>statusCode\<close> or \<^verbatim>\<open>status\<close>.
\<close>

record error =
  err_name :: string
  err_message :: message
  statusCode :: "nat option"
  status :: "string option"

definition ValidationError :: "(string \<times> field_error) set \<Rightarrow> error" where
  "ValidationError errs =
     \<lparr>err_name = ''ValidationError'', err_message = ValidationFailed errs,
      statusCode = None, status = None\<rparr>"

definition CastErr :: "string \<Rightarrow> string \<Rightarrow> error" where
  "CastErr kind path =
     \<lparr>err_name = ''CastError'', err_message = CastFailed kind path,
      statusCode = None, status = None\<rparr>"

definition ThrownError :: "string \<Rightarrow> error" where
  "ThrownError nm =
     \<lparr>err_name = nm, err_message = Unmodelled, statusCode = None, status = None\<rparr>"

text \<open>
  The payload given to \<^verbatim>\<open>res.json\<close>, with stored documents and dates (sent as ISO
  strings) as leaves.
\<close>

datatype reply =
    RNull
  | RNum rat
  | RStr string
  | RTime js_date
  | RMsg message
  | RDoc income_record
  | RArr "reply list"
  | RObj "(string \<times> reply) list"

record response =
  code :: nat
  payload :: reply

text \<open>\<^verbatim>\<open>obj.key\<close> on a payload: \<open>None\<close> when the payload has no such key.\<close>

fun field :: "reply \<Rightarrow> string \<Rightarrow> reply option" where
  "field (RObj kvs) k = map_of kvs k"
| "field _ k = None"

text \<open>
  The error-handling middleware (\<^verbatim>\<open>server.js\<close>, lines 178 to 187):
  \<^verbatim>\<open>err.statusCode = err.statusCode || 500; err.status = err.status || 'error'\<close>.
  A status code of 0 and an empty status are falsy.
\<close>

definition error_middleware :: "error \<Rightarrow> response" where
  "error_middleware err =
     (let sc = (case statusCode err of None \<Rightarrow> 500 | Some c \<Rightarrow> if c = 0 then 500 else c);
          st = (case status err of None \<Rightarrow> ''error'' | Some s \<Rightarrow> if s = [] then ''error'' else s)
      in \<lparr>code = sc,
          payload = RObj [(''status'', RStr st), (''message'', RMsg (err_message err))]\<rparr>)"

section \<open>Deleting a record\<close>

text \<open>
  \<^verbatim>\<open>IncomeRecord.findByIdAndDelete(id)\<close>: the id is cast to an \<^verbatim>\<open>ObjectId\<close> (a
  \<^verbatim>\<open>CastError\<close> is thrown when it cannot be), and the first document with that id is
  removed and returned, or \<^verbatim>\<open>null\<close> when there is none.
\<close>

definition findByIdAndDelete ::
  "platform \<Rightarrow> string \<Rightarrow> store \<Rightarrow> error + (income_record option \<times> store)" where
  "findByIdAndDelete P rid db =
     (case cast_oid P rid of
        None \<Rightarrow> Inl (CastErr ''ObjectId'' ''_id'')
      | Some oid \<Rightarrow>
          (case find (\<lambda>r. rec_id r = oid) db of
             None \<Rightarrow> Inr (None, db)
           | Some r \<Rightarrow> Inr (Some r, remove1 r db)))"

text \<open>\<^verbatim>\<open>router.delete('/records/:id')\<close> (\<^verbatim>\<open>server.js\<close>, lines 154 to 172).\<close>

definition delete_record :: "platform \<Rightarrow> string \<Rightarrow> store \<Rightarrow> store \<times> response" where
  "delete_record P rid db =
     (case findByIdAndDelete P rid db of
        Inl err \<Rightarrow> (db, error_middleware err)
      | Inr (None, db') \<Rightarrow>
          (db', \<lparr>code = 404,
                 payload = RObj [(''status'', RStr ''fail''),
                                 (''message'', RStr ''No record found with that ID'')]\<rparr>)
      | Inr (Some r, db') \<Rightarrow>
          (db', \<lparr>code = 204,
                 payload = RObj [(''status'', RStr ''success''), (''data'', RNull)]\<rparr>))"

text \<open>The store keeps \<^verbatim>\<open>_id\<close> unique.\<close>

definition unique_ids :: "store \<Rightarrow> bool" where
  "unique_ids db = distinct (map rec_id db)"

section \<open>Creating a record\<close>

text \<open>JavaScript's truthiness of a field of the body.\<close>

fun truthy :: "json option \<Rightarrow> bool" where
  "truthy None = False"
| "truthy (Some JNull) = False"
| "truthy (Some (JBool b)) = b"
| "truthy (Some (JNum x)) = (x \<noteq> 0)"
| "truthy (Some (JStr s)) = (s \<noteq> [])"
| "truthy (Some (JArr xs)) = True"
| "truthy (Some (JObj kvs)) = True"

text \<open>
  What a schema path holds once Mongoose has cast the value given for it:
  \<^verbatim>\<open>undefined\<close>, \<^verbatim>\<open>null\<close>, a failed cast, or a value of the path's type.
\<close>

datatype 'a casted = Undefined | Null | Failed | Val 'a

text \<open>
  Casts to \<^verbatim>\<open>String\<close> and \<^verbatim>\<open>Number\<close>. A string is its own cast to \<^verbatim>\<open>String\<close>, a
  number its own cast to \<^verbatim>\<open>Number\<close>, \<^verbatim>\<open>null\<close> stays \<^verbatim>\<open>null\<close>, and the empty string
  casts to the number \<^verbatim>\<open>null\<close>; every other value goes to the platform.
\<close>

definition schema_string :: "platform \<Rightarrow> json option \<Rightarrow> string casted" where
  "schema_string P v =
     (case v of
        None \<Rightarrow> Undefined
      | Some JNull \<Rightarrow> Null
      | Some (JStr s) \<Rightarrow> Val s
      | Some w \<Rightarrow> (case cast_str P w of None \<Rightarrow> Failed | Some s \<Rightarrow> Val s))"

definition schema_number :: "platform \<Rightarrow> json option \<Rightarrow> rat casted" where
  "schema_number P v =
     (case v of
        None \<Rightarrow> Undefined
      | Some JNull \<Rightarrow> Null
      | Some (JNum x) \<Rightarrow> Val x
      | Some w \<Rightarrow>
          if w = JStr [] then Null
          else (case cast_num P w of None \<Rightarrow> Failed | Some x \<Rightarrow> Val x))"

text \<open>
  \<^verbatim>\<open>trim: true\<close>: JavaScript's \<^verbatim>\<open>trim\<close>, which removes white space and line
  terminators from both ends. Among the code units below 256 these are tab, line feed,
  vertical tab, form feed, carriage return, space and the no-break space \<^verbatim>\<open>U+00A0\<close>.
\<close>

definition is_space :: "char \<Rightarrow> bool" where
  "is_space c =
     (c \<in> set [CHR 0x09, CHR 0x0A, CHR 0x0B, CHR 0x0C, CHR 0x0D, CHR 0x20, CHR 0xA0])"

definition trim :: "string \<Rightarrow> string" where
  "trim s = rev (dropWhile is_space (rev (dropWhile is_space s)))"

text \<open>
  The paths of \<^verbatim>\<open>incomeSchema\<close> (\<^verbatim>\<open>server.js\<close>, lines 49 to 75). Each gives the value
  to store, or the error of its first failing validator; a path whose cast failed has the
  cast's error and is not validated.

  \<^verbatim>\<open>description\<close>: \<^verbatim>\<open>String\<close>, trimmed, \<^verbatim>\<open>required\<close> (the empty string does not
  count as given), \<^verbatim>\<open>maxlength\<close> 100.
\<close>

definition description_path :: "platform \<Rightarrow> json option \<Rightarrow> field_error + string" where
  "description_path P v =
     (case schema_string P v of
        Failed \<Rightarrow> Inl (CastError ''string'')
      | Undefined \<Rightarrow> Inl (ValidatorError ''Description is required'')
      | Null \<Rightarrow> Inl (ValidatorError ''Description is required'')
      | Val s \<Rightarrow>
          if trim s = [] then Inl (ValidatorError ''Description is required'')
          else if length (trim s) > 100
               then Inl (ValidatorError ''Description cannot exceed 100 characters'')
          else Inr (trim s))"

text \<open>\<^verbatim>\<open>amount\<close>: \<^verbatim>\<open>Number\<close>, \<^verbatim>\<open>required\<close>, \<^verbatim>\<open>min\<close> 0.\<close>

definition amount_path :: "platform \<Rightarrow> json option \<Rightarrow> field_error + rat" where
  "amount_path P v =
     (case schema_number P v of
        Failed \<Rightarrow> Inl (CastError ''Number'')
      | Undefined \<Rightarrow> Inl (ValidatorError ''Amount is required'')
      | Null \<Rightarrow> Inl (ValidatorError ''Amount is required'')
      | Val x \<Rightarrow>
          if x < 0 then Inl (ValidatorError ''Amount must be positive'') else Inr x)"

text \<open>
  \<^verbatim>\<open>date\<close>: the handler passes \<^verbatim>\<open>date || new Date()\<close>, so the path is given either a
  truthy value of the body, which is cast to \<^verbatim>\<open>Date\<close>, or the current time. It is
  never missing, and \<^verbatim>\<open>required\<close> and the schema's default have nothing to do.
\<close>

datatype date_arg = Given json | Now js_date

definition date_or_now :: "json option \<Rightarrow> js_date \<Rightarrow> date_arg" where
  "date_or_now v now =
     (case v of
        None \<Rightarrow> Now now
      | Some w \<Rightarrow> if truthy (Some w) then Given w else Now now)"

definition date_path :: "platform \<Rightarrow> date_arg \<Rightarrow> field_error + js_date" where
  "date_path P a =
     (case a of
        Now d \<Rightarrow> Inr d
      | Given w \<Rightarrow>
          (case cast_date P w of None \<Rightarrow> Inl (CastError ''date'') | Some d \<Rightarrow> Inr d))"

text \<open>
  \<^verbatim>\<open>category\<close>: \<^verbatim>\<open>String\<close>, \<^verbatim>\<open>enum\<close>, \<^verbatim>\<open>default: 'Other'\<close>. The default is used when
  the value is \<^verbatim>\<open>undefined\<close>, and only then.
\<close>

definition categories :: "string list" where
  "categories = [''Salary'', ''Freelance'', ''Investment'', ''Bonus'', ''Other'']"

definition enum_message :: "string \<Rightarrow> string" where
  "enum_message s =
     [CHR 0x60] @ s @ [CHR 0x60] @ '' is not a valid enum value for path '' @
     [CHR 0x60] @ ''category'' @ [CHR 0x60] @ ''.''"

definition category_path :: "platform \<Rightarrow> json option \<Rightarrow> field_error + string option" where
  "category_path P v =
     (case schema_string P v of
        Undefined \<Rightarrow> Inr (Some ''Other'')
      | Failed \<Rightarrow> Inl (CastError ''string'')
      | Null \<Rightarrow>
          if enum_accepts_null P then Inr None
          else Inl (ValidatorError (enum_message ''null''))
      | Val s \<Rightarrow>
          if s \<in> set categories then Inr (Some s)
          else Inl (ValidatorError (enum_message s)))"

text \<open>The failed paths of a document, each with its error.\<close>

definition failure :: "string \<Rightarrow> field_error + 'a \<Rightarrow> (string \<times> field_error) set" where
  "failure path r = (case r of Inl e \<Rightarrow> {(path, e)} | Inr x \<Rightarrow> {})"

text \<open>
  \<^verbatim>\<open>IncomeRecord.create({description, amount, date, category})\<close>: the document is built
  from the four values, validated, and saved under a fresh id \<open>oid\<close> with both timestamps
  set to the time of saving; a document with a failed path is not saved and a
  \<^verbatim>\<open>ValidationError\<close> is thrown.
\<close>

definition failures ::
  "platform \<Rightarrow> json option \<Rightarrow> json option \<Rightarrow> date_arg \<Rightarrow> json option
     \<Rightarrow> (string \<times> field_error) set" where
  "failures P d a t c =
     failure ''description'' (description_path P d) \<union> failure ''amount'' (amount_path P a) \<union>
     failure ''date'' (date_path P t) \<union> failure ''category'' (category_path P c)"

definition IncomeRecord_create ::
  "platform \<Rightarrow> js_date \<Rightarrow> object_id \<Rightarrow> json option \<Rightarrow> json option \<Rightarrow> date_arg \<Rightarrow> json option
     \<Rightarrow> store \<Rightarrow> error + (income_record \<times> store)" where
  "IncomeRecord_create P stamp oid d a t c db =
     (case (description_path P d, amount_path P a, date_path P t, category_path P c) of
        (Inr ds, Inr x, Inr dt, Inr cat) \<Rightarrow>
          (let r = \<lparr>rec_id = oid, description = ds, amount = x, date = dt, category = cat,
                    createdAt = stamp, updatedAt = stamp\<rparr>
           in Inr (r, db @ [r]))
      | _ \<Rightarrow> Inl (ValidationError (failures P d a t c)))"

text \<open>
  \<^verbatim>\<open>router.post('/records')\<close> (\<^verbatim>\<open>server.js\<close>, lines 87 to 106). \<open>now\<close> is the clock when
  the handler runs, \<open>stamp\<close> the clock when the document is saved.
\<close>

definition create_record ::
  "platform \<Rightarrow> js_date \<Rightarrow> js_date \<Rightarrow> object_id \<Rightarrow> body \<Rightarrow> store \<Rightarrow> store \<times> response" where
  "create_record P now stamp oid b db =
     (case IncomeRecord_create P stamp oid (b ''description'') (b ''amount'')
             (date_or_now (b ''date'') now) (b ''category'') db of
        Inl err \<Rightarrow> (db, error_middleware err)
      | Inr (r, db') \<Rightarrow>
          (db', \<lparr>code = 201,
                 payload = RObj [(''status'', RStr ''success''),
                                 (''data'', RObj [(''record'', RDoc r)])]\<rparr>))"

text \<open>
  The failed paths of a request body, and the response of the error middleware to the
  \<^verbatim>\<open>ValidationError\<close> that carries them.
\<close>

definition failures_of :: "platform \<Rightarrow> js_date \<Rightarrow> body \<Rightarrow> (string \<times> field_error) set" where
  "failures_of P now b =
     failures P (b ''description'') (b ''amount'') (date_or_now (b ''date'') now) (b ''category'')"

definition rejection :: "platform \<Rightarrow> js_date \<Rightarrow> body \<Rightarrow> response" where
  "rejection P now b =
     \<lparr>code = 500,
      payload = RObj [(''status'', RStr ''error''),
                      (''message'', RMsg (ValidationFailed (failures_of P now b)))]\<rparr>"

text \<open>
  A create that is rejected with the failed path \<open>pth\<close> and its error \<open>e\<close> among those
  of the message: nothing is stored.
\<close>

definition rejected_for ::
  "platform \<Rightarrow> js_date \<Rightarrow> js_date \<Rightarrow> object_id \<Rightarrow> body \<Rightarrow> store \<Rightarrow> string \<Rightarrow> field_error
     \<Rightarrow> bool" where
  "rejected_for P now stamp oid b db pth e =
     (create_record P now stamp oid b db = (db, rejection P now b) \<and>
      (pth, e) \<in> failures_of P now b)"

text \<open>The response to a request whose document \<open>r\<close> was saved.\<close>

definition created :: "income_record \<Rightarrow> response" where
  "created r =
     \<lparr>code = 201,
      payload = RObj [(''status'', RStr ''success''),
                      (''data'', RObj [(''record'', RDoc r)])]\<rparr>"

section \<open>Listing records\<close>

subsection \<open>The query object as JSON text\<close>

text \<open>
  \<^verbatim>\<open>JSON.stringify\<close> on a query object: strings in double quotes with the quote, the
  backslash and the control characters escaped, no white space.
\<close>

definition hex_digit :: "nat \<Rightarrow> char" where
  "hex_digit n = ''0123456789abcdef'' ! (n mod 16)"

definition escape_char :: "char \<Rightarrow> string" where
  "escape_char c =
     (if c = CHR 0x22 then [CHR 0x5C, CHR 0x22]
      else if c = CHR 0x5C then [CHR 0x5C, CHR 0x5C]
      else if c = CHR 0x08 then [CHR 0x5C, CHR ''b'']
      else if c = CHR 0x0C then [CHR 0x5C, CHR ''f'']
      else if c = CHR 0x0A then [CHR 0x5C, CHR ''n'']
      else if c = CHR 0x0D then [CHR 0x5C, CHR ''r'']
      else if c = CHR 0x09 then [CHR 0x5C, CHR ''t'']
      else if (of_char c :: nat) < 32
           then [CHR 0x5C, CHR ''u'', CHR ''0'', CHR ''0'',
                 hex_digit (of_char c div 16), hex_digit (of_char c mod 16)]
      else [c])"

definition quote :: "string \<Rightarrow> string" where
  "quote s = [CHR 0x22] @ concat (map escape_char s) @ [CHR 0x22]"

fun join :: "'a list \<Rightarrow> 'a list list \<Rightarrow> 'a list" where
  "join sep [] = []"
| "join sep [x] = x"
| "join sep (x # y # ys) = x @ sep @ join sep (y # ys)"

fun stringify :: "qv \<Rightarrow> string" where
  "stringify (QStr s) = quote s"
| "stringify (QArr xs) = ''['' @ join '','' (map stringify xs) @ '']''"
| "stringify (QObj kvs) =
     ''{'' @ join '','' (map (\<lambda>kv. quote (fst kv) @ '':'' @ stringify (snd kv)) kvs) @ ''}''"

subsection \<open>The operators\<close>

text \<open>
  \<^verbatim>\<open>queryStr.replace(/\b(gte|gt|lte|lt)\b/g, match => `$${match}`)\<close>. A match starts
  where the character before is not a word character (or at the start of the text), is
  one of the four words, and ends where the next character is not a word character (or
  the text ends). The replacement puts a dollar sign in front of the match. Within a
  match no other match starts, so it is enough to put the dollar sign and go on.
\<close>

definition is_word :: "char \<Rightarrow> bool" where
  "is_word c =
     (c \<in> set ''abcdefghijklmnopqrstuvwxyzABCDEFGHIJKLMNOPQRSTUVWXYZ0123456789_'')"

definition word_ends :: "string \<Rightarrow> bool" where
  "word_ends s = (case s of [] \<Rightarrow> True | c # cs \<Rightarrow> \<not> is_word c)"

definition op_at :: "string \<Rightarrow> bool" where
  "op_at s =
     (\<exists>m \<in> set [''gte'', ''gt'', ''lte'', ''lt''].
        take (length m) s = m \<and> word_ends (drop (length m) s))"

fun replace_ops :: "bool \<Rightarrow> string \<Rightarrow> string" where
  "replace_ops prev [] = []"
| "replace_ops prev (c # cs) =
     (if \<not> prev \<and> op_at (c # cs) then CHR ''$'' # c # replace_ops True cs
      else c # replace_ops (is_word c) cs)"

subsection \<open>Reading the text back\<close>

text \<open>
  \<^verbatim>\<open>JSON.parse\<close> on texts made of strings, arrays and objects (a query object has no
  numbers, booleans or \<^verbatim>\<open>null\<close>): first the tokens, then the values. \<open>None\<close> is the
  \<^verbatim>\<open>SyntaxError\<close>. An escape \<^verbatim>\<open>\uXXXX\<close> is read when it names a character below 256.
\<close>

datatype token =
  TLBrace | TRBrace | TLBracket | TRBracket | TColon | TComma | TString string

definition hex_value :: "char \<Rightarrow> nat option" where
  "hex_value c =
     (let n = (of_char c :: nat) in
      if 48 \<le> n \<and> n \<le> 57 then Some (n - 48)
      else if 97 \<le> n \<and> n \<le> 102 then Some (n - 87)
      else if 65 \<le> n \<and> n \<le> 70 then Some (n - 55)
      else None)"

definition unicode_escape :: "char \<Rightarrow> char \<Rightarrow> char \<Rightarrow> char \<Rightarrow> char option" where
  "unicode_escape a b c d =
     (case (hex_value a, hex_value b, hex_value c, hex_value d) of
        (Some x, Some y, Some z, Some w) \<Rightarrow>
          if x = 0 \<and> y = 0 then Some (char_of (16 * z + w)) else None
      | _ \<Rightarrow> None)"

definition simple_escape :: "char \<Rightarrow> char option" where
  "simple_escape e =
     (if e = CHR 0x22 \<or> e = CHR 0x5C \<or> e = CHR ''/'' then Some e
      else if e = CHR ''b'' then Some (CHR 0x08)
      else if e = CHR ''f'' then Some (CHR 0x0C)
      else if e = CHR ''n'' then Some (CHR 0x0A)
      else if e = CHR ''r'' then Some (CHR 0x0D)
      else if e = CHR ''t'' then Some (CHR 0x09)
      else None)"

fun lex :: "string \<Rightarrow> token list option"
  and lex_string :: "string \<Rightarrow> string \<Rightarrow> token list option" where
  "lex [] = Some []"
| "lex (c # cs) =
     (if c = CHR ''{'' then map_option (Cons TLBrace) (lex cs)
      else if c = CHR ''}'' then map_option (Cons TRBrace) (lex cs)
      else if c = CHR ''['' then map_option (Cons TLBracket) (lex cs)
      else if c = CHR '']'' then map_option (Cons TRBracket) (lex cs)
      else if c = CHR '':'' then map_option (Cons TColon) (lex cs)
      else if c = CHR '','' then map_option (Cons TComma) (lex cs)
      else if c = CHR 0x22 then lex_string [] cs
      else if c \<in> set [CHR 0x20, CHR 0x09, CHR 0x0A, CHR 0x0D] then lex cs
      else None)"
| "lex_string acc [] = None"
| "lex_string acc (c # cs) =
     (if c = CHR 0x22 then map_option (Cons (TString (rev acc))) (lex cs)
      else if c = CHR 0x5C then
        (case cs of
           [] \<Rightarrow> None
         | e # cs1 \<Rightarrow>
             if e = CHR ''u'' then
               (case cs1 of
                  h1 # h2 # h3 # h4 # cs2 \<Rightarrow>
                    (case unicode_escape h1 h2 h3 h4 of
                       None \<Rightarrow> None
                     | Some u \<Rightarrow> lex_string (u # acc) cs2)
                | _ \<Rightarrow> None)
             else
               (case simple_escape e of
                  None \<Rightarrow> None
                | Some u \<Rightarrow> lex_string (u # acc) cs1))
      else if (of_char c :: nat) < 32 then None
      else lex_string (c # acc) cs)"

text \<open>
  The values are built by a machine with a stack of the arrays and objects still open.
  Setting a key an object already has replaces its value, as in JavaScript.
\<close>

datatype frame =
    ArrF "qv list"
  | ObjF "(string \<times> qv) list"
  | KeyF "(string \<times> qv) list" string

datatype expect = Value | ValueOrEnd | Key | KeyOrEnd | Colon | CommaOrEnd | Finished qv

fun set_key :: "string \<Rightarrow> qv \<Rightarrow> (string \<times> qv) list \<Rightarrow> (string \<times> qv) list" where
  "set_key k v [] = [(k, v)]"
| "set_key k v (p # ps) = (if fst p = k then (k, v) # ps else p # set_key k v ps)"

fun put :: "qv \<Rightarrow> frame list \<Rightarrow> (expect \<times> frame list) option" where
  "put v [] = Some (Finished v, [])"
| "put v (ArrF xs # st) = Some (CommaOrEnd, ArrF (v # xs) # st)"
| "put v (KeyF kvs k # st) = Some (CommaOrEnd, ObjF (set_key k v kvs) # st)"
| "put v (ObjF kvs # st) = None"

fun close_array :: "frame list \<Rightarrow> (expect \<times> frame list) option" where
  "close_array (ArrF xs # st) = put (QArr (rev xs)) st"
| "close_array st = None"

fun close_object :: "frame list \<Rightarrow> (expect \<times> frame list) option" where
  "close_object (ObjF kvs # st) = put (QObj kvs) st"
| "close_object st = None"

fun open_value :: "token \<Rightarrow> frame list \<Rightarrow> (expect \<times> frame list) option" where
  "open_value (TString s) st = put (QStr s) st"
| "open_value TLBracket st = Some (ValueOrEnd, ArrF [] # st)"
| "open_value TLBrace st = Some (KeyOrEnd, ObjF [] # st)"
| "open_value t st = None"

fun read_key :: "token \<Rightarrow> frame list \<Rightarrow> (expect \<times> frame list) option" where
  "read_key (TString k) (ObjF kvs # st) = Some (Colon, KeyF kvs k # st)"
| "read_key t st = None"

fun step :: "token \<Rightarrow> expect \<times> frame list \<Rightarrow> (expect \<times> frame list) option" where
  "step t (Value, st) = open_value t st"
| "step t (ValueOrEnd, st) = (if t = TRBracket then close_array st else open_value t st)"
| "step t (Key, st) = read_key t st"
| "step t (KeyOrEnd, st) = (if t = TRBrace then close_object st else read_key t st)"
| "step t (Colon, st) = (if t = TColon then Some (Value, st) else None)"
| "step t (CommaOrEnd, st) =
     (if t = TRBracket then close_array st
      else if t = TRBrace then close_object st
      else if t = TComma then
        (case st of
           ArrF xs # st1 \<Rightarrow> Some (Value, st)
         | ObjF kvs # st1 \<Rightarrow> Some (Key, st)
         | _ \<Rightarrow> None)
      else None)"
| "step t (Finished v, st) = None"

fun run :: "token list \<Rightarrow> expect \<times> frame list \<Rightarrow> (expect \<times> frame list) option" where
  "run [] s = Some s"
| "run (t # ts) s = (case step t s of None \<Rightarrow> None | Some s1 \<Rightarrow> run ts s1)"

definition JSON_parse :: "string \<Rightarrow> qv option" where
  "JSON_parse s =
     (case lex s of
        None \<Rightarrow> None
      | Some ts \<Rightarrow>
          (case run ts (Value, []) of
             Some (Finished v, []) \<Rightarrow> Some v
           | _ \<Rightarrow> None))"

subsection \<open>The filter, structurally\<close>

text \<open>
  What the three steps together make of a query object, without the text in between: every
  key and every string is replaced by the string that is read back from its replaced
  JSON text, and a key that the replacement makes equal to an earlier key of the same
  object overwrites that key's value. \<open>tokens\<close> are the tokens of the replaced text.
\<close>

definition read_back :: "string \<Rightarrow> string option" where
  "read_back t = (case lex t of Some [TString s] \<Rightarrow> Some s | _ \<Rightarrow> None)"

definition restring :: "string \<Rightarrow> string" where
  "restring s = (case read_back (replace_ops False (quote s)) of None \<Rightarrow> s | Some t \<Rightarrow> t)"

fun rewrite :: "qv \<Rightarrow> qv" where
  "rewrite (QStr s) = QStr (restring s)"
| "rewrite (QArr xs) = QArr (map rewrite xs)"
| "rewrite (QObj kvs) =
     QObj (fold (\<lambda>kv acc. set_key (restring (fst kv)) (rewrite (snd kv)) acc) kvs [])"

fun tokens :: "qv \<Rightarrow> token list" where
  "tokens (QStr s) = [TString (restring s)]"
| "tokens (QArr xs) = TLBracket # join [TComma] (map tokens xs) @ [TRBracket]"
| "tokens (QObj kvs) =
     TLBrace #
     join [TComma] (map (\<lambda>kv. TString (restring (fst kv)) # TColon # tokens (snd kv)) kvs) @
     [TRBrace]"

text \<open>
  Three notions for the proof that the text is always read back, and as what. A piece of
  text \<open>lexes_to\<close> its tokens when it ends in a character that is no word character and
  its replaced text, in front of any text, yields these tokens in front of the tokens of
  that text. Tokens \<open>builds\<close> a value when the machine, expecting a value, reads them and
  puts that value. A string is \<open>plain\<close> when \<^verbatim>\<open>JSON.stringify\<close> escapes nothing in it.
\<close>

definition lexes_to :: "string \<Rightarrow> token list \<Rightarrow> bool" where
  "lexes_to a ts =
     (a \<noteq> [] \<and> \<not> is_word (last a) \<and>
      (\<forall>rest. lex (replace_ops False a @ rest) = map_option ((@) ts) (lex rest)))"

definition builds :: "token list \<Rightarrow> qv \<Rightarrow> bool" where
  "builds ts v =
     (\<forall>m st rest. m = Value \<or> m = ValueOrEnd \<longrightarrow>
        run (ts @ rest) (m, st) = (case put v st of None \<Rightarrow> None | Some s \<Rightarrow> run rest s))"

definition plain :: "string \<Rightarrow> bool" where
  "plain s = (\<forall>c \<in> set s. c \<noteq> CHR 0x22 \<and> c \<noteq> CHR 0x5C \<and> \<not> (of_char c :: nat) < 32)"

subsection \<open>The handler\<close>

text \<open>
  \<^verbatim>\<open>req.query\<close> is an object, here the list of its keys and values. \<^verbatim>\<open>queryObj\<close> is
  its copy without the four excluded fields.
\<close>

type_synonym query = "(string \<times> qv) list"

definition excludedFields :: "string list" where
  "excludedFields = [''page'', ''sort'', ''limit'', ''fields'']"

definition queryObj :: "query \<Rightarrow> query" where
  "queryObj q = filter (\<lambda>kv. fst kv \<notin> set excludedFields) q"

definition queryStr :: "query \<Rightarrow> string" where
  "queryStr q = replace_ops False (stringify (QObj (queryObj q)))"

text \<open>
  \<^verbatim>\<open>req.query.page * 1\<close>: the value as a number, \<open>None\<close> for \<^verbatim>\<open>NaN\<close>. A missing
  value and an object give \<^verbatim>\<open>NaN\<close>; an array is first joined with commas.
\<close>

fun js_to_string :: "qv \<Rightarrow> string" where
  "js_to_string (QStr s) = s"
| "js_to_string (QArr xs) = join '','' (map js_to_string xs)"
| "js_to_string (QObj kvs) = ''[object Object]''"

definition times_one :: "platform \<Rightarrow> qv option \<Rightarrow> rat option" where
  "times_one P v =
     (case v of
        None \<Rightarrow> None
      | Some (QObj kvs) \<Rightarrow> None
      | Some w \<Rightarrow> str_to_num P (js_to_string w))"

text \<open>\<^verbatim>\<open>n || d\<close> on numbers: \<^verbatim>\<open>NaN\<close> and 0 are falsy.\<close>

definition or_default :: "rat option \<Rightarrow> rat \<Rightarrow> rat" where
  "or_default n d = (case n of None \<Rightarrow> d | Some x \<Rightarrow> if x = 0 then d else x)"

definition page_of :: "platform \<Rightarrow> query \<Rightarrow> rat" where
  "page_of P q = or_default (times_one P (map_of q ''page'')) 1"

definition limit_of :: "platform \<Rightarrow> query \<Rightarrow> rat" where
  "limit_of P q = or_default (times_one P (map_of q ''limit'')) 10"

text \<open>
  The Mongoose query the handler builds before it awaits it (\<^verbatim>\<open>server.js\<close>, lines 111
  to 135): the filter read back from \<^verbatim>\<open>queryStr\<close>, the sort string, the skip and the
  limit. A \<^verbatim>\<open>sort\<close> parameter that is an array or an object has no \<^verbatim>\<open>split\<close>, and the
  call throws a \<^verbatim>\<open>TypeError\<close>.
\<close>

record find_query =
  conditions :: qv
  sort_spec :: string
  q_skip :: rat
  q_limit :: rat

definition sort_of :: "query \<Rightarrow> error + string" where
  "sort_of q =
     (case map_of q ''sort'' of
        None \<Rightarrow> Inr ''-date''
      | Some (QStr s) \<Rightarrow>
          if s = [] then Inr ''-date''
          else Inr (map (\<lambda>c. if c = CHR '','' then CHR '' '' else c) s)
      | Some w \<Rightarrow> Inl (ThrownError ''TypeError''))"

definition build_query :: "platform \<Rightarrow> query \<Rightarrow> error + find_query" where
  "build_query P q =
     (case JSON_parse (queryStr q) of
        None \<Rightarrow> Inl (ThrownError ''SyntaxError'')
      | Some f \<Rightarrow>
          (case sort_of q of
             Inl err \<Rightarrow> Inl err
           | Inr sortBy \<Rightarrow>
               Inr \<lparr>conditions = f, sort_spec = sortBy,
                    q_skip = (page_of P q - 1) * limit_of P q,
                    q_limit = limit_of P q\<rparr>))"

text \<open>
  The store's part. A skip that is a whole number from 0 on and a limit that is a whole
  number from 1 on cut the window out of the sorted matches; anything else is the
  platform's.
\<close>

definition whole :: "rat \<Rightarrow> bool" where
  "whole x = (of_int \<lfloor>x\<rfloor> = x)"

definition window ::
  "platform \<Rightarrow> rat \<Rightarrow> rat \<Rightarrow> income_record list \<Rightarrow> income_record list option" where
  "window P sk lm xs =
     (if whole sk \<and> whole lm \<and> 0 \<le> sk \<and> 1 \<le> lm
      then Some (take (nat \<lfloor>lm\<rfloor>) (drop (nat \<lfloor>sk\<rfloor>) xs))
      else odd_window P sk lm xs)"

definition run_query :: "platform \<Rightarrow> find_query \<Rightarrow> store \<Rightarrow> error + income_record list" where
  "run_query P fq db =
     (case select P (conditions fq) of
        None \<Rightarrow> Inl (ThrownError ''Error'')
      | Some p \<Rightarrow>
          (case window P (q_skip fq) (q_limit fq) (order_by P (sort_spec fq) (filter p db)) of
             None \<Rightarrow> Inl (ThrownError ''Error'')
           | Some rs \<Rightarrow> Inr rs))"

definition countDocuments :: "platform \<Rightarrow> qv \<Rightarrow> store \<Rightarrow> error + nat" where
  "countDocuments P f db =
     (case select P f of
        None \<Rightarrow> Inl (ThrownError ''Error'')
      | Some p \<Rightarrow> Inr (length (filter p db)))"

text \<open>\<^verbatim>\<open>router.get('/records')\<close> (\<^verbatim>\<open>server.js\<close>, lines 109 to 151).\<close>

definition list_records :: "platform \<Rightarrow> query \<Rightarrow> store \<Rightarrow> response" where
  "list_records P q db =
     (case build_query P q of
        Inl err \<Rightarrow> error_middleware err
      | Inr fq \<Rightarrow>
          (case run_query P fq db of
             Inl err \<Rightarrow> error_middleware err
           | Inr records \<Rightarrow>
               (case countDocuments P (conditions fq) db of
                  Inl err \<Rightarrow> error_middleware err
                | Inr total_docs \<Rightarrow>
                    \<lparr>code = 200,
                     payload =
                       RObj [(''status'', RStr ''success''),
                             (''results'', RNum (of_nat (length records))),
                             (''total'', RNum (of_nat total_docs)),
                             (''data'', RObj [(''records'', RArr (map RDoc records))])]\<rparr>)))"

section \<open>The routes of \<^verbatim>\<open>server.js\<close>\<close>

text \<open>
  A request that has passed the middleware in front of the routes (body parser, CORS,
  helmet, logger, and the rate limiter on \<^verbatim>\<open>/api/\<close>). \<open>path\<close> is the list of the
  decoded segments of the path between its slashes, without the empty one that a slash at
  the end leaves (Express accepts it); \<open>url\<close> is \<^verbatim>\<open>req.originalUrl\<close>.
\<close>

datatype verb = GET | HEAD | POST | DELETE | OtherVerb string

record request =
  verb :: verb
  path :: "string list"
  url :: string
  query :: query
  body :: body

text \<open>The catch-all \<^verbatim>\<open>app.all('*')\<close> (lines 190 to 195).\<close>

definition not_found :: "string \<Rightarrow> response" where
  "not_found u =
     \<lparr>code = 404,
      payload = RObj [(''status'', RStr ''fail''),
                      (''message'',
                       RStr (''Can'' @ [CHR 0x27] @ ''t find '' @ u @ '' on this server!''))]\<rparr>"

text \<open>
  Express compares the fixed parts of a route without regard to the case of the letters,
  and a route for \<^verbatim>\<open>GET\<close> also serves \<^verbatim>\<open>HEAD\<close>.
\<close>

definition lower :: "string \<Rightarrow> string" where
  "lower s =
     map (\<lambda>c. case map_of (zip ''ABCDEFGHIJKLMNOPQRSTUVWXYZ'' ''abcdefghijklmnopqrstuvwxyz'') c of
                 None \<Rightarrow> c | Some l \<Rightarrow> l) s"

text \<open>
  The router mounted on \<^verbatim>\<open>/api\<close> with its three routes, then the catch-all. The store
  is returned with the response.
\<close>

definition server ::
  "platform \<Rightarrow> js_date \<Rightarrow> js_date \<Rightarrow> object_id \<Rightarrow> request \<Rightarrow> store \<Rightarrow> store \<times> response" where
  "server P now stamp oid req db =
     (case path req of
        [a, r] \<Rightarrow>
          if lower a = ''api'' \<and> lower r = ''records'' \<and> verb req = POST
          then create_record P now stamp oid (body req) db
          else if lower a = ''api'' \<and> lower r = ''records''
                  \<and> (verb req = GET \<or> verb req = HEAD)
          then (db, list_records P (query req) db)
          else (db, not_found (url req))
      | [a, r, rid] \<Rightarrow>
          if lower a = ''api'' \<and> lower r = ''records'' \<and> rid \<noteq> [] \<and> verb req = DELETE
          then delete_record P rid db
          else (db, not_found (url req))
      | _ \<Rightarrow> (db, not_found (url req)))"

section \<open>The endpoints of the earlier server\<close>

text \<open>
  The server listed in \<^verbatim>\<open>README.md\<close> (lines 207 to 373) has two endpoints that
  \<^verbatim>\<open>server.js\<close> does not have.

  \<^verbatim>\<open>app.get('/api/records/stats')\<close> (lines 292 to 332) runs two aggregations in the
  store. The store's operators work on doubles and are not part of the repository, so
  they are parameters:
  \<^item> \<open>acc_sum\<close> and \<open>acc_avg\<close>: what the accumulators \<^verbatim>\<open>$sum\<close> and \<^verbatim>\<open>$avg\<close> make of the
    amounts of the documents of a group;
  \<^item> \<open>round_to\<close>: what \<^verbatim>\<open>$round\<close> makes of a number and a number of places;
  \<^item> \<open>group_order\<close>: the order in which the store takes the groups of \<^verbatim>\<open>$group\<close> to
    its sort. The store promises no order of the groups and none among groups that the
    sort key does not separate.

  Counting with \<^verbatim>\<open>{$sum: 1}\<close> is exact. The store is taken to answer; when an aggregation
  fails the handler answers 500.
\<close>

record category_stat =
  group_id :: "string option"
  group_total :: rat
  group_count :: nat

record aggregation =
  acc_sum :: "rat list \<Rightarrow> rat"
  acc_avg :: "rat list \<Rightarrow> rat"
  round_to :: "rat \<Rightarrow> nat \<Rightarrow> rat"
  group_order :: "category_stat list \<Rightarrow> category_stat list"

text \<open>
  The first aggregation groups the whole collection into one document, none when the
  collection is empty, and projects it with the average rounded to two places.
\<close>

record summary =
  totalAmount :: rat
  count :: nat
  average :: rat

definition group_all :: "aggregation \<Rightarrow> store \<Rightarrow> summary list" where
  "group_all A db =
     (if db = [] then []
      else [\<lparr>totalAmount = acc_sum A (map amount db), count = length db,
              average = acc_avg A (map amount db)\<rparr>])"

definition project_rounded :: "aggregation \<Rightarrow> summary \<Rightarrow> summary" where
  "project_rounded A s = s\<lparr>average := round_to A (average s) 2\<rparr>"

text \<open>
  The second aggregation groups by category, one group for each category present, and
  sorts the groups by \<^verbatim>\<open>total\<close>, largest first. The list of the groups is made here in
  the order of \<open>remdups\<close>; the store takes them to the sort in its own order,
  \<open>group_order\<close>, and groups with equal totals stay in that order.
\<close>

definition group_by_category :: "aggregation \<Rightarrow> store \<Rightarrow> category_stat list" where
  "group_by_category A db =
     map (\<lambda>c. \<lparr>group_id = c,
                group_total = acc_sum A (map amount (filter (\<lambda>r. category r = c) db)),
                group_count = length (filter (\<lambda>r. category r = c) db)\<rparr>)
         (remdups (map category db))"

definition sort_total_desc :: "aggregation \<Rightarrow> category_stat list \<Rightarrow> category_stat list" where
  "sort_total_desc A gs = sort_key (\<lambda>g. - group_total g) (group_order A gs)"

definition summary_fields :: "summary \<Rightarrow> (string \<times> reply) list" where
  "summary_fields s =
     [(''totalAmount'', RNum (totalAmount s)),
      (''count'', RNum (of_nat (count s))),
      (''average'', RNum (average s))]"

definition stat_reply :: "category_stat \<Rightarrow> reply" where
  "stat_reply g =
     RObj [(''_id'', (case group_id g of None \<Rightarrow> RNull | Some c \<Rightarrow> RStr c)),
           (''total'', RNum (group_total g)),
           (''count'', RNum (of_nat (group_count g)))]"

text \<open>
  \<^verbatim>\<open>res.json({...stats[0], categories: categoryStats})\<close>: spreading \<^verbatim>\<open>undefined\<close>, which
  \<^verbatim>\<open>stats[0]\<close> is for an empty collection, adds no key.
\<close>

definition stats :: "aggregation \<Rightarrow> store \<Rightarrow> response" where
  "stats A db =
     (let st = map (project_rounded A) (group_all A db);
          categoryStats = sort_total_desc A (group_by_category A db)
      in \<lparr>code = 200,
          payload =
            RObj ((case st of [] \<Rightarrow> [] | s # rest \<Rightarrow> summary_fields s) @
                  [(''categories'', RArr (map stat_reply categoryStats))])\<rparr>)"

text \<open>\<^verbatim>\<open>app.get('/health')\<close> (\<^verbatim>\<open>README.md\<close>, lines 355 to 361).\<close>

definition health :: "js_date \<Rightarrow> response" where
  "health now =
     \<lparr>code = 200,
      payload = RObj [(''status'', RStr ''running''),
                      (''message'', RStr ''Income Records API is operational''),
                      (''timestamp'', RTime now)]\<rparr>"

section \<open>A platform for the examples\<close>

text \<open>
  The closed examples below need the libraries' conversions at a few values. This
  platform reads decimal integers as numbers and 24 hexadecimal digits as an
  \<^verbatim>\<open>ObjectId\<close>, matches a filter on \<^verbatim>\<open>description\<close> and \<^verbatim>\<open>category\<close> by equality
  and on \<^verbatim>\<open>amount\<close> by equality or by the four range operators, sorts by date, refuses a
  negative skip and reads a negative limit as its absolute value.
\<close>

definition is_digit :: "char \<Rightarrow> bool" where
  "is_digit c = (c \<in> set ''0123456789'')"

definition dec_nat :: "string \<Rightarrow> nat option" where
  "dec_nat s =
     (if s \<noteq> [] \<and> list_all is_digit s
      then Some (foldl (\<lambda>a c. 10 * a + (of_char c - 48)) 0 s) else None)"

definition dec_num :: "string \<Rightarrow> rat option" where
  "dec_num s =
     (case s of
        [] \<Rightarrow> None
      | c # t \<Rightarrow> if c = CHR ''-'' then map_option (\<lambda>n. - of_nat n) (dec_nat t)
                 else map_option of_nat (dec_nat s))"

definition hex_oid :: "string \<Rightarrow> object_id option" where
  "hex_oid s =
     (if length s = 24 \<and> list_all (\<lambda>c. c \<in> set ''0123456789abcdefABCDEF'') s
      then Some (map (\<lambda>c. case map_of (zip ''ABCDEF'' ''abcdef'') c of
                             None \<Rightarrow> c | Some l \<Rightarrow> l) s)
      else None)"

definition range_holds :: "string \<Rightarrow> rat \<Rightarrow> rat \<Rightarrow> bool" where
  "range_holds opr x y =
     (if opr = ''$gte'' then y \<le> x
      else if opr = ''$gt'' then y < x
      else if opr = ''$lte'' then x \<le> y
      else if opr = ''$lt'' then x < y
      else False)"

definition operand_holds :: "rat \<Rightarrow> string \<times> qv \<Rightarrow> bool" where
  "operand_holds x ov =
     (case snd ov of
        QStr s \<Rightarrow> (case dec_num s of None \<Rightarrow> False | Some y \<Rightarrow> range_holds (fst ov) x y)
      | _ \<Rightarrow> False)"

definition field_matches :: "income_record \<Rightarrow> string \<times> qv \<Rightarrow> bool" where
  "field_matches r kv =
     (if fst kv = ''description'' then snd kv = QStr (description r)
      else if fst kv = ''category'' then
        (case category r of None \<Rightarrow> False | Some c \<Rightarrow> snd kv = QStr c)
      else if fst kv = ''amount'' then
        (case snd kv of
           QStr s \<Rightarrow> dec_num s = Some (amount r)
         | QObj ops \<Rightarrow> list_all (operand_holds (amount r)) ops
         | QArr xs \<Rightarrow> False)
      else False)"

definition sample_select :: "qv \<Rightarrow> (income_record \<Rightarrow> bool) option" where
  "sample_select f =
     (case f of
        QObj kvs \<Rightarrow> Some (\<lambda>r. list_all (field_matches r) kvs)
      | _ \<Rightarrow> None)"

definition sample_order :: "string \<Rightarrow> income_record list \<Rightarrow> income_record list" where
  "sample_order sb rs =
     (if sb = ''-date'' then sort_key (\<lambda>r. - date r) rs
      else if sb = ''date'' then sort_key date rs
      else rs)"

definition sample_window :: "rat \<Rightarrow> rat \<Rightarrow> income_record list \<Rightarrow> income_record list option" where
  "sample_window sk lm rs =
     (if whole sk \<and> whole lm \<and> 0 \<le> sk \<and> lm < 0
      then Some (take (nat \<lfloor>- lm\<rfloor>) (drop (nat \<lfloor>sk\<rfloor>) rs))
      else None)"

definition sample_platform :: platform where
  "sample_platform =
     \<lparr>str_to_num = dec_num,
      cast_str = (\<lambda>v. case v of JBool b \<Rightarrow> Some (if b then ''true'' else ''false'')
                              | _ \<Rightarrow> None),
      cast_num = (\<lambda>v. case v of JStr s \<Rightarrow> dec_num s
                              | JBool b \<Rightarrow> Some (if b then 1 else 0)
                              | _ \<Rightarrow> None),
      cast_date = (\<lambda>v. case v of JNum x \<Rightarrow> Some \<lfloor>x\<rfloor> | _ \<Rightarrow> None),
      cast_oid = hex_oid,
      enum_accepts_null = True,
      select = sample_select,
      order_by = sample_order,
      odd_window = sample_window\<rparr>"

text \<open>
  A store for the examples of the statistics. It computes exactly: the sum, the mean, and
  the rounding to the nearest multiple of \<open>10\<^sup>-\<^sup>n\<close>, a half going to the even neighbour
  as with \<^verbatim>\<open>$round\<close>. It takes the groups to the sort as \<open>group_by_category\<close> lists
  them.
\<close>

definition round_half_even :: "rat \<Rightarrow> int" where
  "round_half_even x =
     (let f = \<lfloor>x\<rfloor>; d = x - of_int f
      in if d < 1 / 2 then f
         else if 1 / 2 < d then f + 1
         else if even f then f else f + 1)"

definition round_places :: "rat \<Rightarrow> nat \<Rightarrow> rat" where
  "round_places x n = of_int (round_half_even (x * 10 ^ n)) / 10 ^ n"

definition mean :: "rat list \<Rightarrow> rat" where
  "mean xs = sum_list xs / of_nat (length xs)"

definition exact_store :: aggregation where
  "exact_store =
     \<lparr>acc_sum = sum_list, acc_avg = mean, round_to = round_places, group_order = (\<lambda>gs. gs)\<rparr>"

text \<open>Three stored documents, and one more whose amount is that of \<open>pay\<close>.\<close>

definition gig :: income_record where
  "gig = \<lparr>rec_id = ''64b7f0c2a1d3e4f5a6b7c8d9'', description = ''Freelance gig'',
          amount = 250, date = 3000, category = Some ''Freelance'',
          createdAt = 3000, updatedAt = 3000\<rparr>"

definition pay :: income_record where
  "pay = \<lparr>rec_id = ''64b7f0c2a1d3e4f5a6b7c8da'', description = ''gt'',
          amount = 1200, date = 1000, category = Some ''Salary'',
          createdAt = 1000, updatedAt = 1000\<rparr>"

definition tip :: income_record where
  "tip = \<lparr>rec_id = ''64b7f0c2a1d3e4f5a6b7c8db'', description = ''Tip'',
          amount = 15 / 2, date = 2000, category = Some ''Freelance'',
          createdAt = 2000, updatedAt = 2000\<rparr>"

definition sample_db :: store where
  "sample_db = [gig, pay, tip]"


section \<open>Properties\<close>

subsection \<open>Facts about the examples\<close>

lemma sample_ids:
  "rec_id gig = ''64b7f0c2a1d3e4f5a6b7c8d9''" "rec_id pay = ''64b7f0c2a1d3e4f5a6b7c8da''"
  "rec_id tip = ''64b7f0c2a1d3e4f5a6b7c8db''"
  by (simp_all add: gig_def pay_def tip_def)

lemma sample_oid:
  "cast_oid sample_platform ''64b7f0c2a1d3e4f5a6b7c8d9'' = Some ''64b7f0c2a1d3e4f5a6b7c8d9''"
  "cast_oid sample_platform ''64b7f0c2a1d3e4f5a6b7c8dc'' = Some ''64b7f0c2a1d3e4f5a6b7c8dc''"
  "cast_oid sample_platform ''abc'' = None"
  by (simp_all add: sample_platform_def hex_oid_def)

lemma sample_unique: "unique_ids sample_db"
  by (simp add: unique_ids_def sample_db_def sample_ids)

lemma sample_casts:
  "schema_number sample_platform (Some (JNum x)) = Val x"
  "schema_string sample_platform (Some (JStr s)) = Val s"
  "schema_string sample_platform None = Undefined"
  "schema_number sample_platform None = Undefined"
  by (simp_all add: schema_number_def schema_string_def)

lemma trim_plain: "trim ''Refund'' = ''Refund''" "trim ''Birthday'' = ''Birthday''"
  by (simp_all add: trim_def is_space_def)

subsection \<open>Deleting\<close>

lemma remove1_unique:
  "distinct (map rec_id db) \<Longrightarrow> find (\<lambda>r. rec_id r = oid) db = Some r \<Longrightarrow>
     remove1 r db = filter (\<lambda>x. rec_id x \<noteq> oid) db"
proof (induction db)
  case Nil
  then show ?case by simp
next
  case (Cons a db)
  show ?case
  proof (cases "rec_id a = oid")
    case True
    with Cons.prems(2) have ra: "r = a" by simp
    from Cons.prems(1) have "rec_id a \<notin> rec_id ` set db" by simp
    with True have "\<forall>x\<in>set db. rec_id x \<noteq> oid" by blast
    then have "filter (\<lambda>x. rec_id x \<noteq> oid) db = db" by (simp add: filter_id_conv)
    with True ra show ?thesis by simp
  next
    case False
    with Cons.prems(2) have f: "find (\<lambda>r. rec_id r = oid) db = Some r" by simp
    then have "rec_id r = oid" by (metis (mono_tags, lifting) find_Some_iff)
    with False have ne: "r \<noteq> a" by blast
    from Cons.prems(1) have d: "distinct (map rec_id db)" by simp
    from Cons.IH[OF d f] have "remove1 r db = filter (\<lambda>x. rec_id x \<noteq> oid) db" .
    with ne False show ?thesis by simp
  qed
qed

text \<open>A delete keeps the ids distinct.\<close>

lemma unique_ids_delete:
  assumes "unique_ids db"
  shows "unique_ids (fst (delete_record P rid db))"
proof -
  have sub: "\<And>r. distinct (map rec_id db) \<Longrightarrow> distinct (map rec_id (remove1 r db))"
    by (metis distinct_map distinct_remove1 inj_on_subset set_remove1_subset)
  show ?thesis
    using assms sub
    by (auto simp: delete_record_def findByIdAndDelete_def unique_ids_def
        split: option.splits sum.splits)
qed

text \<open>
  C1, as the code has it. For a path parameter that casts to an \<^verbatim>\<open>ObjectId\<close> and a
  collection with unique ids: when a record with the id exists, the delete answers 204
  and the record is gone while every other record stays, and the same delete repeated at
  once answers 404 and changes nothing; when no record has the id, the delete answers 404
  with the handler's own \<^verbatim>\<open>fail\<close> payload (no error is thrown, the error middleware is
  not involved) and the collection is unchanged.
\<close>

theorem delete_record_outcomes:
  assumes "cast_oid P rid = Some oid" and "unique_ids db"
  shows "if \<exists>r\<in>set db. rec_id r = oid
         then code (snd (delete_record P rid db)) = 204
            \<and> fst (delete_record P rid db) = filter (\<lambda>r. rec_id r \<noteq> oid) db
            \<and> code (snd (delete_record P rid (fst (delete_record P rid db)))) = 404
            \<and> fst (delete_record P rid (fst (delete_record P rid db))) = fst (delete_record P rid db)
         else delete_record P rid db =
                (db, \<lparr>code = 404,
                      payload = RObj [(''status'', RStr ''fail''),
                                      (''message'', RStr ''No record found with that ID'')]\<rparr>)"
proof (cases "find (\<lambda>r. rec_id r = oid) db")
  case None
  then have nex: "\<not> (\<exists>r\<in>set db. rec_id r = oid)" by (auto simp: find_None_iff)
  from None assms(1) have h: "delete_record P rid db =
                (db, \<lparr>code = 404,
                      payload = RObj [(''status'', RStr ''fail''),
                                      (''message'', RStr ''No record found with that ID'')]\<rparr>)"
    by (simp add: delete_record_def findByIdAndDelete_def)
  show ?thesis unfolding if_not_P[OF nex] by (rule h)
next
  case (Some r)
  then have ex: "\<exists>r\<in>set db. rec_id r = oid" by (metis (mono_tags, lifting) find_Some_iff nth_mem)
  let ?db' = "filter (\<lambda>x. rec_id x \<noteq> oid) db"
  from assms(2) Some have rm: "remove1 r db = ?db'" by (simp add: remove1_unique unique_ids_def)
  have first: "delete_record P rid db =
      (?db', \<lparr>code = 204, payload = RObj [(''status'', RStr ''success''), (''data'', RNull)]\<rparr>)"
    by (simp add: delete_record_def findByIdAndDelete_def assms(1) Some rm)
  have "find (\<lambda>r. rec_id r = oid) ?db' = None" by (auto simp: find_None_iff)
  then have second: "delete_record P rid ?db' =
      (?db', \<lparr>code = 404,
             payload = RObj [(''status'', RStr ''fail''),
                             (''message'', RStr ''No record found with that ID'')]\<rparr>)"
    by (simp add: delete_record_def findByIdAndDelete_def assms(1))
  have h: "code (snd (delete_record P rid db)) = 204
            \<and> fst (delete_record P rid db) = ?db'
            \<and> code (snd (delete_record P rid (fst (delete_record P rid db)))) = 404
            \<and> fst (delete_record P rid (fst (delete_record P rid db))) = fst (delete_record P rid db)"
    by (simp add: first second)
  show ?thesis unfolding if_P[OF ex] by (rule h)
qed

theorem delete_record_outcomes_witness:
  "cast_oid sample_platform ''64b7f0c2a1d3e4f5a6b7c8d9'' = Some ''64b7f0c2a1d3e4f5a6b7c8d9'' \<and>
   unique_ids sample_db \<and>
   code (snd (delete_record sample_platform ''64b7f0c2a1d3e4f5a6b7c8d9'' sample_db)) = 204 \<and>
   fst (delete_record sample_platform ''64b7f0c2a1d3e4f5a6b7c8d9'' sample_db) = [pay, tip] \<and>
   code (snd (delete_record sample_platform ''64b7f0c2a1d3e4f5a6b7c8d9'' [pay, tip])) = 404 \<and>
   cast_oid sample_platform ''64b7f0c2a1d3e4f5a6b7c8dc'' = Some ''64b7f0c2a1d3e4f5a6b7c8dc'' \<and>
   delete_record sample_platform ''64b7f0c2a1d3e4f5a6b7c8dc'' sample_db =
     (sample_db, \<lparr>code = 404,
                   payload = RObj [(''status'', RStr ''fail''),
                                   (''message'', RStr ''No record found with that ID'')]\<rparr>)"
proof -
  have present: "\<exists>r\<in>set sample_db. rec_id r = ''64b7f0c2a1d3e4f5a6b7c8d9''"
    and absent: "\<not> (\<exists>r\<in>set sample_db. rec_id r = ''64b7f0c2a1d3e4f5a6b7c8dc'')"
    and rest: "filter (\<lambda>r. rec_id r \<noteq> ''64b7f0c2a1d3e4f5a6b7c8d9'') sample_db = [pay, tip]"
    by (simp_all add: sample_db_def sample_ids)
  note hit = delete_record_outcomes[OF sample_oid(1) sample_unique, unfolded if_P[OF present]]
  note first = hit[THEN conjunct1]
  note left = hit[THEN conjunct2, THEN conjunct1]
  note again = hit[THEN conjunct2, THEN conjunct2, THEN conjunct1]
  note none = delete_record_outcomes[OF sample_oid(2) sample_unique, unfolded if_not_P[OF absent]]
  from left rest
  have left': "fst (delete_record sample_platform ''64b7f0c2a1d3e4f5a6b7c8d9'' sample_db) = [pay, tip]"
    by simp
  from again have again': "code (snd (delete_record sample_platform ''64b7f0c2a1d3e4f5a6b7c8d9''
                  [pay, tip])) = 404"
    unfolding left' .
  from first left' again' none show ?thesis
    by (simp add: sample_oid sample_unique)
qed

text \<open>
  A path parameter that is not an identifier (the cast to \<^verbatim>\<open>ObjectId\<close> fails) makes
  Mongoose throw; the error middleware answers 500 and the collection is unchanged.
\<close>

lemma delete_malformed_id:
  "cast_oid P rid = None \<Longrightarrow>
     delete_record P rid db =
       (db, \<lparr>code = 500,
             payload = RObj [(''status'', RStr ''error''),
                             (''message'', RMsg (CastFailed ''ObjectId'' ''_id''))]\<rparr>)"
  by (simp add: delete_record_def findByIdAndDelete_def error_middleware_def CastErr_def)

text \<open>
  C1 as stated fails: no sample record has the id \<^verbatim>\<open>abc\<close>, and
  \<^verbatim>\<open>DELETE /api/records/abc\<close> is not answered 404: the cast of the id throws, and the
  error middleware answers 500.
\<close>

theorem delete_malformed_id_counterexample:
  "''abc'' \<notin> set (map rec_id sample_db) \<and>
   delete_record sample_platform ''abc'' sample_db =
     (sample_db, \<lparr>code = 500,
                   payload = RObj [(''status'', RStr ''error''),
                                   (''message'', RMsg (CastFailed ''ObjectId'' ''_id''))]\<rparr>)"
  by (simp add: delete_malformed_id sample_oid sample_db_def sample_ids)

subsection \<open>Creating\<close>

lemma failures_Nil:
  "failures P d a t c = {} \<longleftrightarrow>
     (\<exists>ds x dt cat. description_path P d = Inr ds \<and> amount_path P a = Inr x \<and>
        date_path P t = Inr dt \<and> category_path P c = Inr cat)"
  by (auto simp: failures_def failure_def split: sum.splits)

lemma create_ok:
  assumes "description_path P d = Inr ds" "amount_path P a = Inr x"
    "date_path P t = Inr dt" "category_path P c = Inr cat"
  shows "IncomeRecord_create P stamp oid d a t c db =
           Inr (\<lparr>rec_id = oid, description = ds, amount = x, date = dt, category = cat,
                 createdAt = stamp, updatedAt = stamp\<rparr>,
                db @ [\<lparr>rec_id = oid, description = ds, amount = x, date = dt, category = cat,
                      createdAt = stamp, updatedAt = stamp\<rparr>])"
  using assms by (simp add: IncomeRecord_create_def Let_def)

lemma create_fails:
  assumes "failures P d a t c \<noteq> {}"
  shows "IncomeRecord_create P stamp oid d a t c db = Inl (ValidationError (failures P d a t c))"
proof -
  from assms have "\<not> (\<exists>ds x dt cat. description_path P d = Inr ds \<and> amount_path P a = Inr x \<and>
        date_path P t = Inr dt \<and> category_path P c = Inr cat)"
    by (simp add: failures_Nil)
  then show ?thesis
    by (auto simp: IncomeRecord_create_def split: sum.splits)
qed

lemma middleware_validation:
  "error_middleware (ValidationError errs) =
     \<lparr>code = 500,
      payload = RObj [(''status'', RStr ''error''), (''message'', RMsg (ValidationFailed errs))]\<rparr>"
  by (simp add: error_middleware_def ValidationError_def)

lemma create_record_rejected:
  assumes "failures_of P now b \<noteq> {}"
  shows "create_record P now stamp oid b db = (db, rejection P now b)"
  using assms
  by (simp add: create_record_def failures_of_def create_fails middleware_validation rejection_def)

lemma create_record_saved:
  assumes "description_path P (b ''description'') = Inr ds" "amount_path P (b ''amount'') = Inr x"
    "date_path P (date_or_now (b ''date'') now) = Inr dt" "category_path P (b ''category'') = Inr cat"
  shows "create_record P now stamp oid b db =
           (db @ [\<lparr>rec_id = oid, description = ds, amount = x, date = dt, category = cat,
                      createdAt = stamp, updatedAt = stamp\<rparr>],
            created \<lparr>rec_id = oid, description = ds, amount = x, date = dt, category = cat,
                      createdAt = stamp, updatedAt = stamp\<rparr>)"
  by (simp add: create_record_def create_ok[OF assms] created_def)

lemma in_failures:
  "(p, e) \<in> failures P d a t c \<longleftrightarrow>
     (p = ''description'' \<and> description_path P d = Inl e) \<or>
     (p = ''amount'' \<and> amount_path P a = Inl e) \<or>
     (p = ''date'' \<and> date_path P t = Inl e) \<or>
     (p = ''category'' \<and> category_path P c = Inl e)"
proof -
  have f: "\<And>q r. (p, e) \<in> failure q (r :: field_error + 'z) \<longleftrightarrow> (p = q \<and> r = Inl e)"
    by (simp add: failure_def split: sum.splits) blast
  show ?thesis unfolding failures_def Un_iff f by blast
qed

lemma amount_negative:
  "schema_number P a = Val x \<Longrightarrow> x < 0 \<Longrightarrow>
     amount_path P a = Inl (ValidatorError ''Amount must be positive'')"
  by (simp add: amount_path_def)

text \<open>
  C2. A create whose amount is a negative number (a negative JSON number, or a value
  that Mongoose casts to one) is rejected: the response is that of a \<^verbatim>\<open>ValidationError\<close>
  that names \<^verbatim>\<open>amount\<close>, and the collection is unchanged. A create whose amount is 0
  and whose other fields pass their validators is accepted: the record is appended to the
  collection with amount 0 and sent back with status 201.
\<close>

theorem create_amount_sign:
  "(schema_number P (b ''amount'') = Val x \<and> x < 0 \<longrightarrow>
      create_record P now stamp oid b db = (db, rejection P now b) \<and>
      (''amount'', ValidatorError ''Amount must be positive'') \<in> failures_of P now b)
   \<and> (schema_number P (b ''amount'') = Val 0 \<and>
        description_path P (b ''description'') = Inr ds \<and>
        date_path P (date_or_now (b ''date'') now) = Inr dt \<and>
        category_path P (b ''category'') = Inr cat \<longrightarrow>
      create_record P now stamp oid b db =
        (db @ [\<lparr>rec_id = oid, description = ds, amount = 0, date = dt, category = cat,
                 createdAt = stamp, updatedAt = stamp\<rparr>],
         created \<lparr>rec_id = oid, description = ds, amount = 0, date = dt, category = cat,
                  createdAt = stamp, updatedAt = stamp\<rparr>))"
proof (intro conjI impI)
  assume h: "schema_number P (b ''amount'') = Val x \<and> x < 0"
  then have "amount_path P (b ''amount'') = Inl (ValidatorError ''Amount must be positive'')"
    by (simp add: amount_negative)
  then show m: "(''amount'', ValidatorError ''Amount must be positive'') \<in> failures_of P now b"
    by (simp add: failures_of_def in_failures)
  then have "failures_of P now b \<noteq> {}" by auto
  then show "create_record P now stamp oid b db = (db, rejection P now b)"
    by (rule create_record_rejected)
next
  assume h: "schema_number P (b ''amount'') = Val 0 \<and>
        description_path P (b ''description'') = Inr ds \<and>
        date_path P (date_or_now (b ''date'') now) = Inr dt \<and>
        category_path P (b ''category'') = Inr cat"
  then have a: "amount_path P (b ''amount'') = Inr 0" by (simp add: amount_path_def)
  from h have d: "description_path P (b ''description'') = Inr ds"
    and t: "date_path P (date_or_now (b ''date'') now) = Inr dt"
    and c: "category_path P (b ''category'') = Inr cat" by simp_all
  show "create_record P now stamp oid b db =
        (db @ [\<lparr>rec_id = oid, description = ds, amount = 0, date = dt, category = cat,
                 createdAt = stamp, updatedAt = stamp\<rparr>],
         created \<lparr>rec_id = oid, description = ds, amount = 0, date = dt, category = cat,
                  createdAt = stamp, updatedAt = stamp\<rparr>)"
    by (rule create_record_saved[OF d a t c])
qed

theorem create_amount_sign_witness:
  "schema_number sample_platform (Some (JNum (- 5))) = Val (- 5) \<and> (- 5 :: rat) < 0 \<and>
   create_record sample_platform 5 6 ''64b7f0c2a1d3e4f5a6b7c8dc''
      (map_of [(''description'', JStr ''Refund''), (''amount'', JNum (- 5))]) sample_db
     = (sample_db,
        \<lparr>code = 500,
         payload = RObj [(''status'', RStr ''error''),
            (''message'', RMsg (ValidationFailed
                {(''amount'', ValidatorError ''Amount must be positive'')}))]\<rparr>) \<and>
   create_record sample_platform 5 6 ''64b7f0c2a1d3e4f5a6b7c8dc''
      (map_of [(''description'', JStr ''Refund''), (''amount'', JNum 0)]) sample_db
     = (sample_db @ [\<lparr>rec_id = ''64b7f0c2a1d3e4f5a6b7c8dc'', description = ''Refund'',
                       amount = 0, date = 5, category = Some ''Other'',
                       createdAt = 6, updatedAt = 6\<rparr>],
        created \<lparr>rec_id = ''64b7f0c2a1d3e4f5a6b7c8dc'', description = ''Refund'',
                       amount = 0, date = 5, category = Some ''Other'',
                       createdAt = 6, updatedAt = 6\<rparr>)"
  using create_amount_sign[where P = sample_platform and x = "- 5" and now = 5 and stamp = 6
      and oid = "''64b7f0c2a1d3e4f5a6b7c8dc''" and db = sample_db
      and b = "map_of [(''description'', JStr ''Refund''), (''amount'', JNum (- 5))]"]
    create_amount_sign[where P = sample_platform and now = 5 and stamp = 6
      and oid = "''64b7f0c2a1d3e4f5a6b7c8dc''" and db = sample_db
      and b = "map_of [(''description'', JStr ''Refund''), (''amount'', JNum 0)]"
      and ds = "''Refund''" and dt = 5 and cat = "Some ''Other''"]
  by (simp add: sample_casts trim_plain description_path_def date_path_def date_or_now_def
      category_path_def rejection_def failures_of_def failures_def failure_def amount_path_def)

lemma schema_string_Some: "schema_string P (Some w) \<noteq> Undefined"
  by (cases w) (simp_all add: schema_string_def split: option.splits)

lemma schema_string_Null: "schema_string P (Some w) = Null \<Longrightarrow> w = JNull"
  by (cases w) (simp_all add: schema_string_def split: option.splits)

lemma category_path_Inr:
  assumes "category_path P v = Inr cat" and "v \<noteq> Some JNull"
  shows "\<exists>c. cat = Some c \<and> c \<in> set categories"
proof (cases v)
  case None
  with assms(1) have "cat = Some ''Other''" by (auto simp: category_path_def schema_string_def)
  moreover have "''Other'' \<in> set categories" by (simp add: categories_def)
  ultimately show ?thesis by blast
next
  case (Some w)
  with assms(2) have w: "w \<noteq> JNull" by simp
  show ?thesis
  proof (cases "schema_string P (Some w)")
    case Undefined
    then show ?thesis by (simp add: schema_string_Some)
  next
    case Null
    with w show ?thesis by (auto dest: schema_string_Null)
  next
    case Failed
    with assms(1) Some show ?thesis by (simp add: category_path_def)
  next
    case (Val s)
    with assms(1) Some show ?thesis by (auto simp: category_path_def split: if_splits)
  qed
qed

lemma create_record_cases:
  "(failures_of P now b \<noteq> {} \<and> create_record P now stamp oid b db = (db, rejection P now b)) \<or>
   (\<exists>ds x dt cat.
      description_path P (b ''description'') = Inr ds \<and> amount_path P (b ''amount'') = Inr x \<and>
      date_path P (date_or_now (b ''date'') now) = Inr dt \<and>
      category_path P (b ''category'') = Inr cat \<and>
      create_record P now stamp oid b db =
        (db @ [\<lparr>rec_id = oid, description = ds, amount = x, date = dt, category = cat,
                 createdAt = stamp, updatedAt = stamp\<rparr>],
         created \<lparr>rec_id = oid, description = ds, amount = x, date = dt, category = cat,
                  createdAt = stamp, updatedAt = stamp\<rparr>))"
proof (cases "failures_of P now b = {}")
  case True
  then obtain ds x dt cat where
    h: "description_path P (b ''description'') = Inr ds" "amount_path P (b ''amount'') = Inr x"
       "date_path P (date_or_now (b ''date'') now) = Inr dt"
       "category_path P (b ''category'') = Inr cat"
    unfolding failures_of_def failures_Nil by blast
  from create_record_saved[OF h] h show ?thesis by blast
next
  case False
  then show ?thesis by (simp add: create_record_rejected)
qed

lemma code_rejection: "code (rejection P now b) = 500"
  by (simp add: rejection_def)

lemma code_created: "code (created r) = 201"
  by (simp add: created_def)

text \<open>
  C3, as the code has it. A create whose category is omitted stores the record with the
  category \<^verbatim>\<open>Other\<close>. A create whose category is a string outside the enumeration is
  not normalised: it is rejected with a \<^verbatim>\<open>ValidationError\<close> that names \<^verbatim>\<open>category\<close>, and
  nothing is stored. Every record that a create stores from a body whose category is not
  \<^verbatim>\<open>null\<close> has a category of the enumeration.
\<close>

theorem create_category:
  "(b ''category'' = None \<and> description_path P (b ''description'') = Inr ds \<and>
      amount_path P (b ''amount'') = Inr x \<and>
      date_path P (date_or_now (b ''date'') now) = Inr dt \<longrightarrow>
      create_record P now stamp oid b db =
        (db @ [\<lparr>rec_id = oid, description = ds, amount = x, date = dt,
                 category = Some ''Other'', createdAt = stamp, updatedAt = stamp\<rparr>],
         created \<lparr>rec_id = oid, description = ds, amount = x, date = dt,
                  category = Some ''Other'', createdAt = stamp, updatedAt = stamp\<rparr>))
   \<and> (b ''category'' = Some (JStr s) \<and> s \<notin> set categories \<longrightarrow>
        create_record P now stamp oid b db = (db, rejection P now b) \<and>
        (''category'', ValidatorError (enum_message s)) \<in> failures_of P now b)
   \<and> (b ''category'' \<noteq> Some JNull \<and> code (snd (create_record P now stamp oid b db)) = 201 \<longrightarrow>
        (\<exists>r c. fst (create_record P now stamp oid b db) = db @ [r] \<and>
               category r = Some c \<and> c \<in> set categories))"
proof (intro conjI impI)
  assume h: "b ''category'' = None \<and> description_path P (b ''description'') = Inr ds \<and>
      amount_path P (b ''amount'') = Inr x \<and>
      date_path P (date_or_now (b ''date'') now) = Inr dt"
  then have c: "category_path P (b ''category'') = Inr (Some ''Other'')"
    by (simp add: category_path_def schema_string_def)
  from h have d: "description_path P (b ''description'') = Inr ds"
    and a: "amount_path P (b ''amount'') = Inr x"
    and t: "date_path P (date_or_now (b ''date'') now) = Inr dt" by simp_all
  show "create_record P now stamp oid b db =
        (db @ [\<lparr>rec_id = oid, description = ds, amount = x, date = dt,
                 category = Some ''Other'', createdAt = stamp, updatedAt = stamp\<rparr>],
         created \<lparr>rec_id = oid, description = ds, amount = x, date = dt,
                  category = Some ''Other'', createdAt = stamp, updatedAt = stamp\<rparr>)"
    by (rule create_record_saved[OF d a t c])
next
  assume h: "b ''category'' = Some (JStr s) \<and> s \<notin> set categories"
  then have "category_path P (b ''category'') = Inl (ValidatorError (enum_message s))"
    by (simp add: category_path_def schema_string_def)
  then show m: "(''category'', ValidatorError (enum_message s)) \<in> failures_of P now b"
    by (simp add: failures_of_def in_failures)
  then have "failures_of P now b \<noteq> {}" by auto
  then show "create_record P now stamp oid b db = (db, rejection P now b)"
    by (rule create_record_rejected)
next
  assume h: "b ''category'' \<noteq> Some JNull \<and> code (snd (create_record P now stamp oid b db)) = 201"
  from create_record_cases[of P now b stamp oid db]
  show "\<exists>r c. fst (create_record P now stamp oid b db) = db @ [r] \<and>
               category r = Some c \<and> c \<in> set categories"
  proof
    assume "failures_of P now b \<noteq> {} \<and> create_record P now stamp oid b db = (db, rejection P now b)"
    with h show ?thesis by (simp add: code_rejection)
  next
    assume "\<exists>ds x dt cat.
      description_path P (b ''description'') = Inr ds \<and> amount_path P (b ''amount'') = Inr x \<and>
      date_path P (date_or_now (b ''date'') now) = Inr dt \<and>
      category_path P (b ''category'') = Inr cat \<and>
      create_record P now stamp oid b db =
        (db @ [\<lparr>rec_id = oid, description = ds, amount = x, date = dt, category = cat,
                 createdAt = stamp, updatedAt = stamp\<rparr>],
         created \<lparr>rec_id = oid, description = ds, amount = x, date = dt, category = cat,
                  createdAt = stamp, updatedAt = stamp\<rparr>)"
    then obtain ds x dt cat where
      c: "category_path P (b ''category'') = Inr cat" and
      e: "create_record P now stamp oid b db =
        (db @ [\<lparr>rec_id = oid, description = ds, amount = x, date = dt, category = cat,
                 createdAt = stamp, updatedAt = stamp\<rparr>],
         created \<lparr>rec_id = oid, description = ds, amount = x, date = dt, category = cat,
                  createdAt = stamp, updatedAt = stamp\<rparr>)"
      by blast
    from category_path_Inr[OF c] h obtain c' where "cat = Some c'" "c' \<in> set categories"
      by blast
    with e show ?thesis by simp
  qed
qed

lemma rejected_forI:
  assumes "(pth, e) \<in> failures_of P now b"
  shows "rejected_for P now stamp oid b db pth e"
proof -
  from assms have "failures_of P now b \<noteq> {}" by auto
  then have "create_record P now stamp oid b db = (db, rejection P now b)"
    by (rule create_record_rejected)
  with assms show ?thesis by (simp add: rejected_for_def)
qed

lemma description_failure:
  "description_path P d = Inl e \<Longrightarrow> (''description'', e) \<in> failures P d a t c"
  by (simp add: in_failures)

lemma amount_failure:
  "amount_path P a = Inl e \<Longrightarrow> (''amount'', e) \<in> failures P d a t c"
  by (simp add: in_failures)

lemma category_failure:
  "category_path P c = Inl e \<Longrightarrow> (''category'', e) \<in> failures P d a t c"
  by (simp add: in_failures)

text \<open>
  C7, as the code has it. A create that fails validation is answered by the error
  middleware with status 500, not 400, and a message that lists every failed path with its
  error: a description that is missing, \<^verbatim>\<open>null\<close>, empty after trimming or longer than 100
  characters, an amount that is missing, \<^verbatim>\<open>null\<close>, not a number or negative, and a
  category outside the enumeration each put their path and message into it. Nothing is
  stored.
\<close>

theorem create_validation_response:
  "(schema_string P (b ''description'') = Undefined \<or> schema_string P (b ''description'') = Null \<or>
      (\<exists>s. schema_string P (b ''description'') = Val s \<and> trim s = []) \<longrightarrow>
      rejected_for P now stamp oid b db ''description'' (ValidatorError ''Description is required''))
   \<and> ((\<exists>s. schema_string P (b ''description'') = Val s \<and> 100 < length (trim s)) \<longrightarrow>
      rejected_for P now stamp oid b db ''description''
        (ValidatorError ''Description cannot exceed 100 characters''))
   \<and> (schema_number P (b ''amount'') = Undefined \<or> schema_number P (b ''amount'') = Null \<longrightarrow>
      rejected_for P now stamp oid b db ''amount'' (ValidatorError ''Amount is required''))
   \<and> (schema_number P (b ''amount'') = Failed \<longrightarrow>
      rejected_for P now stamp oid b db ''amount'' (CastError ''Number''))
   \<and> ((\<exists>x. schema_number P (b ''amount'') = Val x \<and> x < 0) \<longrightarrow>
      rejected_for P now stamp oid b db ''amount'' (ValidatorError ''Amount must be positive''))
   \<and> (b ''category'' = Some w \<and> schema_string P (Some w) = Val c \<and> c \<notin> set categories \<longrightarrow>
      rejected_for P now stamp oid b db ''category'' (ValidatorError (enum_message c)))
   \<and> (failures_of P now b \<noteq> {} \<longrightarrow>
        create_record P now stamp oid b db = (db, rejection P now b))
   \<and> rejection P now b =
        \<lparr>code = 500,
         payload = RObj [(''status'', RStr ''error''),
                         (''message'', RMsg (ValidationFailed (failures_of P now b)))]\<rparr>"
proof (intro conjI impI)
  assume "schema_string P (b ''description'') = Undefined \<or> schema_string P (b ''description'') = Null \<or>
      (\<exists>s. schema_string P (b ''description'') = Val s \<and> trim s = [])"
  then have "description_path P (b ''description'') = Inl (ValidatorError ''Description is required'')"
    by (auto simp: description_path_def)
  then show "rejected_for P now stamp oid b db ''description'' (ValidatorError ''Description is required'')"
    by (intro rejected_forI) (simp add: failures_of_def description_failure)
next
  assume "\<exists>s. schema_string P (b ''description'') = Val s \<and> 100 < length (trim s)"
  then have "description_path P (b ''description'') =
      Inl (ValidatorError ''Description cannot exceed 100 characters'')"
    by (auto simp: description_path_def)
  then show "rejected_for P now stamp oid b db ''description''
        (ValidatorError ''Description cannot exceed 100 characters'')"
    by (intro rejected_forI) (simp add: failures_of_def description_failure)
next
  assume "schema_number P (b ''amount'') = Undefined \<or> schema_number P (b ''amount'') = Null"
  then have "amount_path P (b ''amount'') = Inl (ValidatorError ''Amount is required'')"
    by (auto simp: amount_path_def)
  then show "rejected_for P now stamp oid b db ''amount'' (ValidatorError ''Amount is required'')"
    by (intro rejected_forI) (simp add: failures_of_def amount_failure)
next
  assume "schema_number P (b ''amount'') = Failed"
  then have "amount_path P (b ''amount'') = Inl (CastError ''Number'')"
    by (simp add: amount_path_def)
  then show "rejected_for P now stamp oid b db ''amount'' (CastError ''Number'')"
    by (intro rejected_forI) (simp add: failures_of_def amount_failure)
next
  assume "\<exists>x. schema_number P (b ''amount'') = Val x \<and> x < 0"
  then have "amount_path P (b ''amount'') = Inl (ValidatorError ''Amount must be positive'')"
    by (auto simp: amount_negative)
  then show "rejected_for P now stamp oid b db ''amount'' (ValidatorError ''Amount must be positive'')"
    by (intro rejected_forI) (simp add: failures_of_def amount_failure)
next
  assume "b ''category'' = Some w \<and> schema_string P (Some w) = Val c \<and> c \<notin> set categories"
  then have "category_path P (b ''category'') = Inl (ValidatorError (enum_message c))"
    by (simp add: category_path_def)
  then show "rejected_for P now stamp oid b db ''category'' (ValidatorError (enum_message c))"
    by (intro rejected_forI) (simp add: failures_of_def category_failure)
next
  assume "failures_of P now b \<noteq> {}"
  then show "create_record P now stamp oid b db = (db, rejection P now b)"
    by (rule create_record_rejected)
next
  show "rejection P now b =
        \<lparr>code = 500,
         payload = RObj [(''status'', RStr ''error''),
                         (''message'', RMsg (ValidationFailed (failures_of P now b)))]\<rparr>"
    by (simp add: rejection_def)
qed

lemma create_record_appends:
  assumes "fst (create_record P now stamp oid b db) = db @ [r]"
  shows "rec_id r = oid \<and> createdAt r = stamp \<and> updatedAt r = stamp"
  using create_record_cases[of P now b stamp oid db] assms by auto

text \<open>The ids stay distinct when the generated id is a fresh one.\<close>

lemma unique_ids_create:
  assumes "unique_ids db" and "oid \<notin> rec_id ` set db"
  shows "unique_ids (fst (create_record P now stamp oid b db))"
  using create_record_cases[of P now b stamp oid db] assms
  by (auto simp: unique_ids_def)

text \<open>
  C10. The handler reads \<^verbatim>\<open>description\<close>, \<^verbatim>\<open>amount\<close>, \<^verbatim>\<open>date\<close> and \<^verbatim>\<open>category\<close> of the
  body and nothing else: two bodies that agree on these four fields give, at the same
  times and with the same generated id, the same collection and the same response. The
  stored record has the generated id and the time of saving as both timestamps, whatever
  the body says about \<^verbatim>\<open>_id\<close>, \<^verbatim>\<open>createdAt\<close> or \<^verbatim>\<open>updatedAt\<close>.
\<close>

theorem create_reads_four_fields:
  assumes "b1 ''description'' = b2 ''description''" and "b1 ''amount'' = b2 ''amount''"
    and "b1 ''date'' = b2 ''date''" and "b1 ''category'' = b2 ''category''"
  shows "create_record P now stamp oid b1 db = create_record P now stamp oid b2 db \<and>
         (\<forall>r. fst (create_record P now stamp oid b2 db) = db @ [r] \<longrightarrow>
              rec_id r = oid \<and> createdAt r = stamp \<and> updatedAt r = stamp)"
proof
  show "create_record P now stamp oid b1 db = create_record P now stamp oid b2 db"
    using assms by (simp add: create_record_def)
  show "\<forall>r. fst (create_record P now stamp oid b2 db) = db @ [r] \<longrightarrow>
              rec_id r = oid \<and> createdAt r = stamp \<and> updatedAt r = stamp"
    using create_record_appends by blast
qed

lemma trim_xs: "trim (replicate 101 (CHR ''x'')) = replicate 101 (CHR ''x'')"
  by (simp add: trim_def is_space_def)

lemma trim_blank: "trim ''   '' = []"
  by (simp add: trim_def is_space_def)

text \<open>
  The no-break space is trimmed like the space: a description that is nothing else is
  missing, and one of 100 characters followed by it is within the bound.
\<close>

lemma trim_no_break_space:
  "trim [CHR 0xA0] = []"
  "trim (replicate 100 (CHR ''x'') @ [CHR 0xA0]) = replicate 100 (CHR ''x'')"
  by (simp_all add: trim_def is_space_def)

lemma description_no_break_space:
  "description_path P (Some (JStr [CHR 0xA0])) = Inl (ValidatorError ''Description is required'')"
  "description_path P (Some (JStr (replicate 100 (CHR ''x'') @ [CHR 0xA0]))) =
     Inr (replicate 100 (CHR ''x''))"
  by (simp_all add: description_path_def schema_string_def trim_no_break_space)

lemma sample_cast_abc: "schema_number sample_platform (Some (JStr ''abc'')) = Failed"
  by (simp add: schema_number_def sample_platform_def dec_num_def dec_nat_def is_digit_def)

lemma Gift_not_category: "''Gift'' \<notin> set categories"
  by (simp add: categories_def)

lemma Salary_category: "''Salary'' \<in> set categories"
  by (simp add: categories_def)

lemma sample_create_default:
  "create_record sample_platform 5 6 ''64b7f0c2a1d3e4f5a6b7c8dc''
      (map_of [(''description'', JStr ''Birthday''), (''amount'', JNum 20)]) sample_db
     = (sample_db @ [\<lparr>rec_id = ''64b7f0c2a1d3e4f5a6b7c8dc'', description = ''Birthday'',
                       amount = 20, date = 5, category = Some ''Other'',
                       createdAt = 6, updatedAt = 6\<rparr>],
        created \<lparr>rec_id = ''64b7f0c2a1d3e4f5a6b7c8dc'', description = ''Birthday'',
                       amount = 20, date = 5, category = Some ''Other'',
                       createdAt = 6, updatedAt = 6\<rparr>)"
  by (rule create_record_saved)
     (simp_all add: sample_casts trim_plain description_path_def date_path_def date_or_now_def
        category_path_def amount_path_def)

lemma sample_create_salary:
  "create_record sample_platform 5 6 ''64b7f0c2a1d3e4f5a6b7c8dc''
      (map_of [(''description'', JStr ''Birthday''), (''amount'', JNum 20),
               (''category'', JStr ''Salary'')]) sample_db
     = (sample_db @ [\<lparr>rec_id = ''64b7f0c2a1d3e4f5a6b7c8dc'', description = ''Birthday'',
                       amount = 20, date = 5, category = Some ''Salary'',
                       createdAt = 6, updatedAt = 6\<rparr>],
        created \<lparr>rec_id = ''64b7f0c2a1d3e4f5a6b7c8dc'', description = ''Birthday'',
                       amount = 20, date = 5, category = Some ''Salary'',
                       createdAt = 6, updatedAt = 6\<rparr>)"
  by (rule create_record_saved)
     (simp_all add: sample_casts trim_plain description_path_def date_path_def date_or_now_def
        category_path_def amount_path_def Salary_category)

text \<open>The three parts of C3 at an omitted category, at \<^verbatim>\<open>Gift\<close> and at \<^verbatim>\<open>Salary\<close>.\<close>

theorem create_category_witness:
  "create_record sample_platform 5 6 ''64b7f0c2a1d3e4f5a6b7c8dc''
      (map_of [(''description'', JStr ''Birthday''), (''amount'', JNum 20)]) sample_db
     = (sample_db @ [\<lparr>rec_id = ''64b7f0c2a1d3e4f5a6b7c8dc'', description = ''Birthday'',
                       amount = 20, date = 5, category = Some ''Other'',
                       createdAt = 6, updatedAt = 6\<rparr>],
        created \<lparr>rec_id = ''64b7f0c2a1d3e4f5a6b7c8dc'', description = ''Birthday'',
                       amount = 20, date = 5, category = Some ''Other'',
                       createdAt = 6, updatedAt = 6\<rparr>) \<and>
   ''Gift'' \<notin> set categories \<and>
   rejected_for sample_platform 5 6 ''64b7f0c2a1d3e4f5a6b7c8dc''
      (map_of [(''description'', JStr ''Birthday''), (''amount'', JNum 20),
               (''category'', JStr ''Gift'')]) sample_db
      ''category'' (ValidatorError (enum_message ''Gift'')) \<and>
   code (snd (create_record sample_platform 5 6 ''64b7f0c2a1d3e4f5a6b7c8dc''
      (map_of [(''description'', JStr ''Birthday''), (''amount'', JNum 20),
               (''category'', JStr ''Salary'')]) sample_db)) = 201 \<and>
   (\<exists>r c. fst (create_record sample_platform 5 6 ''64b7f0c2a1d3e4f5a6b7c8dc''
      (map_of [(''description'', JStr ''Birthday''), (''amount'', JNum 20),
               (''category'', JStr ''Salary'')]) sample_db) = sample_db @ [r] \<and>
          category r = Some c \<and> c \<in> set categories)"
proof -
  let ?oid = "''64b7f0c2a1d3e4f5a6b7c8dc''"
  let ?b1 = "map_of [(''description'', JStr ''Birthday''), (''amount'', JNum 20)]"
  let ?b2 = "map_of [(''description'', JStr ''Birthday''), (''amount'', JNum 20),
               (''category'', JStr ''Gift'')]"
  let ?b3 = "map_of [(''description'', JStr ''Birthday''), (''amount'', JNum 20),
               (''category'', JStr ''Salary'')]"
  have one: "create_record sample_platform 5 6 ?oid ?b1 sample_db
     = (sample_db @ [\<lparr>rec_id = ?oid, description = ''Birthday'',
                       amount = 20, date = 5, category = Some ''Other'',
                       createdAt = 6, updatedAt = 6\<rparr>],
        created \<lparr>rec_id = ?oid, description = ''Birthday'',
                       amount = 20, date = 5, category = Some ''Other'',
                       createdAt = 6, updatedAt = 6\<rparr>)"
    by (rule create_category[where P = sample_platform and b = ?b1 and now = 5 and stamp = 6
          and oid = ?oid and db = sample_db and ds = "''Birthday''" and x = 20 and dt = 5,
          THEN conjunct1, THEN mp])
       (simp add: sample_casts trim_plain description_path_def date_path_def date_or_now_def
          amount_path_def)
  have two: "create_record sample_platform 5 6 ?oid ?b2 sample_db
               = (sample_db, rejection sample_platform 5 ?b2) \<and>
             (''category'', ValidatorError (enum_message ''Gift''))
               \<in> failures_of sample_platform 5 ?b2"
    by (rule create_category[where P = sample_platform and b = ?b2 and now = 5 and stamp = 6
          and oid = ?oid and db = sample_db and s = "''Gift''",
          THEN conjunct2, THEN conjunct1, THEN mp])
       (simp add: Gift_not_category)
  have three: "\<exists>r c. fst (create_record sample_platform 5 6 ?oid ?b3 sample_db) = sample_db @ [r] \<and>
          category r = Some c \<and> c \<in> set categories"
    by (rule create_category[where P = sample_platform and b = ?b3 and now = 5 and stamp = 6
          and oid = ?oid and db = sample_db,
          THEN conjunct2, THEN conjunct2, THEN mp])
       (simp only: sample_create_salary snd_conv code_created, simp)
  have four: "code (snd (create_record sample_platform 5 6 ?oid ?b3 sample_db)) = 201"
    by (simp only: sample_create_salary snd_conv code_created)
  from one two three four Gift_not_category show ?thesis
    unfolding rejected_for_def by blast
qed

text \<open>
  C3 as stated fails: with the category \<^verbatim>\<open>Gift\<close>, which is not in the enumeration of
  \<^verbatim>\<open>server.js\<close>, no record with the category \<^verbatim>\<open>Other\<close> is stored. The collection is
  unchanged and the response is the validation error.
\<close>

theorem create_invalid_category_counterexample:
  "create_record sample_platform 5 6 ''64b7f0c2a1d3e4f5a6b7c8dc''
      (map_of [(''description'', JStr ''Birthday''), (''amount'', JNum 20),
               (''category'', JStr ''Gift'')]) sample_db
     = (sample_db,
        \<lparr>code = 500,
         payload = RObj [(''status'', RStr ''error''),
            (''message'', RMsg (ValidationFailed
                {(''category'', ValidatorError (enum_message ''Gift''))}))]\<rparr>)"
proof -
  let ?b = "map_of [(''description'', JStr ''Birthday''), (''amount'', JNum 20),
               (''category'', JStr ''Gift'')]"
  have f: "failures_of sample_platform 5 ?b = {(''category'', ValidatorError (enum_message ''Gift''))}"
    by (simp add: failures_of_def failures_def failure_def sample_casts trim_plain
        description_path_def date_path_def date_or_now_def category_path_def amount_path_def
        Gift_not_category)
  then have "failures_of sample_platform 5 ?b \<noteq> {}" by simp
  from create_record_rejected[OF this] f show ?thesis by (simp add: rejection_def)
qed

text \<open>
  C7 as stated fails: a create with the amount \<open>-5\<close> fails validation and the status of
  the response is 500.
\<close>

theorem create_validation_response_counterexample:
  "code (snd (create_record sample_platform 5 6 ''64b7f0c2a1d3e4f5a6b7c8dc''
      (map_of [(''description'', JStr ''Refund''), (''amount'', JNum (- 5))]) sample_db)) = 500"
proof -
  let ?b = "map_of [(''description'', JStr ''Refund''), (''amount'', JNum (- 5))]"
  have "amount_path sample_platform (?b ''amount'') = Inl (ValidatorError ''Amount must be positive'')"
    by (simp add: amount_path_def sample_casts)
  then have "(''amount'', ValidatorError ''Amount must be positive'') \<in> failures_of sample_platform 5 ?b"
    unfolding failures_of_def by (rule amount_failure)
  then have "failures_of sample_platform 5 ?b \<noteq> {}" by auto
  from create_record_rejected[OF this] show ?thesis by (simp add: code_rejection)
qed

text \<open>
  C7 at an empty body, at a blank description with the amount \<^verbatim>\<open>abc\<close>, at a
  description of 101 characters with a negative amount and the category \<^verbatim>\<open>Gift\<close>, and
  at a description that is one no-break space.
\<close>

theorem create_validation_response_witness:
  "rejected_for sample_platform 5 6 ''64b7f0c2a1d3e4f5a6b7c8dc'' Map.empty sample_db
      ''description'' (ValidatorError ''Description is required'') \<and>
   rejected_for sample_platform 5 6 ''64b7f0c2a1d3e4f5a6b7c8dc'' Map.empty sample_db
      ''amount'' (ValidatorError ''Amount is required'') \<and>
   rejected_for sample_platform 5 6 ''64b7f0c2a1d3e4f5a6b7c8dc''
      (map_of [(''description'', JStr ''   ''), (''amount'', JStr ''abc'')]) sample_db
      ''description'' (ValidatorError ''Description is required'') \<and>
   rejected_for sample_platform 5 6 ''64b7f0c2a1d3e4f5a6b7c8dc''
      (map_of [(''description'', JStr ''   ''), (''amount'', JStr ''abc'')]) sample_db
      ''amount'' (CastError ''Number'') \<and>
   rejected_for sample_platform 5 6 ''64b7f0c2a1d3e4f5a6b7c8dc''
      (map_of [(''description'', JStr (replicate 101 (CHR ''x''))), (''amount'', JNum (- 5)),
               (''category'', JStr ''Gift'')]) sample_db
      ''description'' (ValidatorError ''Description cannot exceed 100 characters'') \<and>
   rejected_for sample_platform 5 6 ''64b7f0c2a1d3e4f5a6b7c8dc''
      (map_of [(''description'', JStr (replicate 101 (CHR ''x''))), (''amount'', JNum (- 5)),
               (''category'', JStr ''Gift'')]) sample_db
      ''amount'' (ValidatorError ''Amount must be positive'') \<and>
   rejected_for sample_platform 5 6 ''64b7f0c2a1d3e4f5a6b7c8dc''
      (map_of [(''description'', JStr (replicate 101 (CHR ''x''))), (''amount'', JNum (- 5)),
               (''category'', JStr ''Gift'')]) sample_db
      ''category'' (ValidatorError (enum_message ''Gift'')) \<and>
   create_record sample_platform 5 6 ''64b7f0c2a1d3e4f5a6b7c8dc'' Map.empty sample_db =
     (sample_db, rejection sample_platform 5 Map.empty) \<and>
   code (rejection sample_platform 5 Map.empty) = 500 \<and>
   rejected_for sample_platform 5 6 ''64b7f0c2a1d3e4f5a6b7c8dc''
      (map_of [(''description'', JStr [CHR 0xA0]), (''amount'', JNum 1)]) sample_db
      ''description'' (ValidatorError ''Description is required'')"
proof -
  let ?oid = "''64b7f0c2a1d3e4f5a6b7c8dc''"
  let ?b4 = "map_of [(''description'', JStr [CHR 0xA0]), (''amount'', JNum 1)]"
  note t4 = create_validation_response[where P = sample_platform and b = ?b4 and now = 5
      and stamp = 6 and oid = ?oid and db = sample_db]
  have i: "rejected_for sample_platform 5 6 ?oid ?b4 sample_db
      ''description'' (ValidatorError ''Description is required'')"
    by (rule t4[THEN conjunct1, THEN mp]) (simp add: sample_casts trim_no_break_space)
  let ?b2 = "map_of [(''description'', JStr ''   ''), (''amount'', JStr ''abc'')]"
  let ?b3 = "map_of [(''description'', JStr (replicate 101 (CHR ''x''))), (''amount'', JNum (- 5)),
               (''category'', JStr ''Gift'')]"
  note t1 = create_validation_response[where P = sample_platform and b = Map.empty and now = 5
      and stamp = 6 and oid = ?oid and db = sample_db]
  note t2 = create_validation_response[where P = sample_platform and b = ?b2 and now = 5
      and stamp = 6 and oid = ?oid and db = sample_db]
  note t3 = create_validation_response[where P = sample_platform and b = ?b3 and now = 5
      and stamp = 6 and oid = ?oid and db = sample_db and w = "JStr ''Gift''" and c = "''Gift''"]
  have a: "rejected_for sample_platform 5 6 ?oid Map.empty sample_db
      ''description'' (ValidatorError ''Description is required'')"
    by (rule t1[THEN conjunct1, THEN mp]) (simp add: sample_casts)
  have b: "rejected_for sample_platform 5 6 ?oid Map.empty sample_db
      ''amount'' (ValidatorError ''Amount is required'')"
    by (rule t1[THEN conjunct2, THEN conjunct2, THEN conjunct1, THEN mp]) (simp add: sample_casts)
  have c: "rejected_for sample_platform 5 6 ?oid ?b2 sample_db
      ''description'' (ValidatorError ''Description is required'')"
    by (rule t2[THEN conjunct1, THEN mp]) (simp add: sample_casts trim_blank)
  have d: "rejected_for sample_platform 5 6 ?oid ?b2 sample_db ''amount'' (CastError ''Number'')"
    by (rule t2[THEN conjunct2, THEN conjunct2, THEN conjunct2, THEN conjunct1, THEN mp])
       (simp add: sample_cast_abc)
  have e: "rejected_for sample_platform 5 6 ?oid ?b3 sample_db
      ''description'' (ValidatorError ''Description cannot exceed 100 characters'')"
    by (rule t3[THEN conjunct2, THEN conjunct1, THEN mp]) (simp add: sample_casts trim_xs)
  have f: "rejected_for sample_platform 5 6 ?oid ?b3 sample_db
      ''amount'' (ValidatorError ''Amount must be positive'')"
    by (rule t3[THEN conjunct2, THEN conjunct2, THEN conjunct2, THEN conjunct2, THEN conjunct1, THEN mp])
       (simp add: sample_casts)
  have g: "rejected_for sample_platform 5 6 ?oid ?b3 sample_db
      ''category'' (ValidatorError (enum_message ''Gift''))"
    by (rule t3[THEN conjunct2, THEN conjunct2, THEN conjunct2, THEN conjunct2, THEN conjunct2,
          THEN conjunct1, THEN mp])
       (simp add: sample_casts Gift_not_category)
  from a have h: "create_record sample_platform 5 6 ?oid Map.empty sample_db =
     (sample_db, rejection sample_platform 5 Map.empty)"
    by (simp add: rejected_for_def)
  from a b c d e f g h i code_rejection show ?thesis by blast
qed

text \<open>
  C10 at a body of two fields and the same body with \<^verbatim>\<open>_id\<close>, \<^verbatim>\<open>createdAt\<close>,
  \<^verbatim>\<open>updatedAt\<close> and one more field added.
\<close>

theorem create_reads_four_fields_witness:
  "create_record sample_platform 5 6 ''64b7f0c2a1d3e4f5a6b7c8dc''
      (map_of [(''description'', JStr ''Birthday''), (''amount'', JNum 20)]) sample_db =
   create_record sample_platform 5 6 ''64b7f0c2a1d3e4f5a6b7c8dc''
      (map_of [(''_id'', JStr ''64b7f0c2a1d3e4f5a6b7c8d9''), (''createdAt'', JNum 1),
               (''updatedAt'', JNum 2), (''isAdmin'', JBool True),
               (''description'', JStr ''Birthday''), (''amount'', JNum 20)]) sample_db \<and>
   fst (create_record sample_platform 5 6 ''64b7f0c2a1d3e4f5a6b7c8dc''
      (map_of [(''_id'', JStr ''64b7f0c2a1d3e4f5a6b7c8d9''), (''createdAt'', JNum 1),
               (''updatedAt'', JNum 2), (''isAdmin'', JBool True),
               (''description'', JStr ''Birthday''), (''amount'', JNum 20)]) sample_db)
     = sample_db @ [\<lparr>rec_id = ''64b7f0c2a1d3e4f5a6b7c8dc'', description = ''Birthday'',
                       amount = 20, date = 5, category = Some ''Other'',
                       createdAt = 6, updatedAt = 6\<rparr>]"
proof -
  let ?b1 = "map_of [(''description'', JStr ''Birthday''), (''amount'', JNum 20)]"
  let ?b2 = "map_of [(''_id'', JStr ''64b7f0c2a1d3e4f5a6b7c8d9''), (''createdAt'', JNum 1),
               (''updatedAt'', JNum 2), (''isAdmin'', JBool True),
               (''description'', JStr ''Birthday''), (''amount'', JNum 20)]"
  have eq: "create_record sample_platform 5 6 ''64b7f0c2a1d3e4f5a6b7c8dc'' ?b1 sample_db =
        create_record sample_platform 5 6 ''64b7f0c2a1d3e4f5a6b7c8dc'' ?b2 sample_db"
    by (rule create_reads_four_fields[THEN conjunct1]) simp_all
  have "fst (create_record sample_platform 5 6 ''64b7f0c2a1d3e4f5a6b7c8dc'' ?b1 sample_db)
     = sample_db @ [\<lparr>rec_id = ''64b7f0c2a1d3e4f5a6b7c8dc'', description = ''Birthday'',
                       amount = 20, date = 5, category = Some ''Other'',
                       createdAt = 6, updatedAt = 6\<rparr>]"
    by (simp only: sample_create_default fst_conv)
  then have "fst (create_record sample_platform 5 6 ''64b7f0c2a1d3e4f5a6b7c8dc'' ?b2 sample_db)
     = sample_db @ [\<lparr>rec_id = ''64b7f0c2a1d3e4f5a6b7c8dc'', description = ''Birthday'',
                       amount = 20, date = 5, category = Some ''Other'',
                       createdAt = 6, updatedAt = 6\<rparr>]"
    by (simp only: eq)
  with eq show ?thesis by blast
qed

subsection \<open>The filter that the handler reads back\<close>

text \<open>
  The replacement splits at every character that is no word character: no match crosses
  it.
\<close>

lemma is_word_chars:
  "is_word (CHR ''g'')" "is_word (CHR ''t'')" "is_word (CHR ''e'')" "is_word (CHR ''l'')"
  "\<not> is_word (CHR 0x22)" "\<not> is_word (CHR 0x5C)" "\<not> is_word (CHR ''$'')"
  "\<not> is_word (CHR ''{'')" "\<not> is_word (CHR ''}'')" "\<not> is_word (CHR ''['')"
  "\<not> is_word (CHR '']'')" "\<not> is_word (CHR '':'')" "\<not> is_word (CHR '','')"
  by (simp_all add: is_word_def)

lemma op_at_first: "op_at (c # cs) \<Longrightarrow> c = CHR ''g'' \<or> c = CHR ''l''"
  by (auto simp: op_at_def)

lemma op_at_Nil: "\<not> op_at []"
  by (simp add: op_at_def)

lemma prefix_split:
  "(take (length m) s = m \<and> word_ends (drop (length m) s)) \<longleftrightarrow> (\<exists>r. s = m @ r \<and> word_ends r)"
  by (metis append_eq_conv_conj append_take_drop_id)

lemma op_at_iff:
  "op_at s \<longleftrightarrow>
     (\<exists>m r. m \<in> {''gte'', ''gt'', ''lte'', ''lt''} \<and> s = m @ r \<and> word_ends r)"
  unfolding op_at_def prefix_split list.set Bex_def by blast

lemma word_ends_append: "r \<noteq> [] \<Longrightarrow> word_ends (r @ b) = word_ends r"
  by (cases r) (simp_all add: word_ends_def)

lemma op_at_append:
  assumes "s \<noteq> []" and "\<not> is_word (last s)"
  shows "op_at (s @ b) = op_at s"
proof -
  have key: "\<And>m r. m \<in> {''gte'', ''gt'', ''lte'', ''lt''} \<Longrightarrow> s = m @ r \<Longrightarrow> r \<noteq> []"
  proof
    fix m r assume m: "m \<in> {''gte'', ''gt'', ''lte'', ''lt''}" and "s = m @ r" and "r = []"
    then have "last s = last m" by simp
    with m have "is_word (last s)" by (auto simp: is_word_chars)
    with assms(2) show False by simp
  qed
  have key2: "\<And>m r. m \<in> {''gte'', ''gt'', ''lte'', ''lt''} \<Longrightarrow> s @ b = m @ r \<Longrightarrow>
                 \<exists>r'. r' \<noteq> [] \<and> s = m @ r' \<and> r = r' @ b"
  proof -
    fix m r assume m: "m \<in> {''gte'', ''gt'', ''lte'', ''lt''}" and e: "s @ b = m @ r"
    from m have w: "\<forall>c\<in>set m. is_word c" by (auto simp: is_word_chars)
    from e obtain us where "(s = m @ us \<and> us @ b = r) \<or> (s @ us = m \<and> b = us @ r)"
      unfolding append_eq_append_conv2 by blast
    then consider (a) u where "s = m @ u" "r = u @ b" | (b) u where "u \<noteq> []" "m = s @ u" "b = u @ r"
      by (cases "us = []") auto
    then show "\<exists>r'. r' \<noteq> [] \<and> s = m @ r' \<and> r = r' @ b"
    proof cases
      case a
      with key[OF m a(1)] show ?thesis by blast
    next
      case b
      with assms(1) have "last s \<in> set m" by auto
      with w assms(2) show ?thesis by blast
    qed
  qed
  show ?thesis
  proof
    assume "op_at (s @ b)"
    then obtain m r where m: "m \<in> {''gte'', ''gt'', ''lte'', ''lt''}" and e: "s @ b = m @ r"
      and we: "word_ends r" unfolding op_at_iff by blast
    from key2[OF m e] obtain r' where r': "r' \<noteq> []" "s = m @ r'" "r = r' @ b" by blast
    with we have "word_ends r'" by (simp add: word_ends_append)
    with m r' show "op_at s" unfolding op_at_iff by blast
  next
    assume "op_at s"
    then obtain m r where m: "m \<in> {''gte'', ''gt'', ''lte'', ''lt''}" and e: "s = m @ r"
      and we: "word_ends r" unfolding op_at_iff by blast
    from key[OF m e] have "r \<noteq> []" .
    with we have "word_ends (r @ b)" by (simp add: word_ends_append)
    moreover from e have "s @ b = m @ (r @ b)" by simp
    ultimately show "op_at (s @ b)" using m unfolding op_at_iff by blast
  qed
qed

lemma replace_ops_append:
  "a \<noteq> [] \<Longrightarrow> \<not> is_word (last a) \<Longrightarrow>
     replace_ops p (a @ b) = replace_ops p a @ replace_ops False b"
proof (induction a arbitrary: p)
  case Nil
  then show ?case by simp
next
  case (Cons x a)
  show ?case
  proof (cases "a = []")
    case True
    with Cons.prems have nx: "\<not> is_word x" by simp
    then have "x \<noteq> CHR ''g'' \<and> x \<noteq> CHR ''l''" by (auto simp: is_word_chars)
    then have "\<not> op_at (x # b)" "\<not> op_at [x]" using op_at_first by blast+
    with True nx show ?thesis by simp
  next
    case False
    with Cons.prems have l: "\<not> is_word (last a)" by simp
    have o: "op_at ((x # a) @ b) = op_at (x # a)"
      by (rule op_at_append) (use Cons.prems in simp_all)
    from Cons.IH[OF False l] o show ?thesis by simp
  qed
qed

text \<open>
  A string literal: the replacement leaves every escape sequence as it is and puts its
  dollar signs between them, so the literal is read back as one string.
\<close>

lemma replace_ops_other:
  "c \<noteq> CHR ''g'' \<Longrightarrow> c \<noteq> CHR ''l'' \<Longrightarrow>
     replace_ops p (c # cs) = c # replace_ops (is_word c) cs"
  using op_at_first[of c cs] by auto

lemma hex_digit_in: "hex_digit n \<in> set ''0123456789abcdef''"
  unfolding hex_digit_def by (rule nth_mem) simp

lemma hex_digit_not_op: "hex_digit n \<noteq> CHR ''g''" "hex_digit n \<noteq> CHR ''l''"
  using hex_digit_in[of n] by auto

lemma hex_value_digit: "hex_value (hex_digit n) \<noteq> None"
  using hex_digit_in[of n] by (auto simp: hex_value_def)

lemma lex_string_plain:
  "c \<noteq> CHR 0x22 \<Longrightarrow> c \<noteq> CHR 0x5C \<Longrightarrow> \<not> (of_char c :: nat) < 32 \<Longrightarrow>
     lex_string acc (c # cs) = lex_string (c # acc) cs"
  by simp

lemma lex_string_dollar: "lex_string acc (CHR ''$'' # cs) = lex_string (CHR ''$'' # acc) cs"
  by simp

lemma lex_string_escape:
  "simple_escape e = Some u \<Longrightarrow> e \<noteq> CHR ''u'' \<Longrightarrow>
     lex_string acc (CHR 0x5C # e # cs) = lex_string (u # acc) cs"
  by simp

lemma lex_string_unicode:
  "unicode_escape h1 h2 h3 h4 = Some u \<Longrightarrow>
     lex_string acc (CHR 0x5C # CHR ''u'' # h1 # h2 # h3 # h4 # cs) = lex_string (u # acc) cs"
  by simp

lemma lex_string_close:
  "lex_string acc (CHR 0x22 # cs) = map_option (Cons (TString (rev acc))) (lex cs)"
  by simp

lemma unit_step:
  "\<exists>acc' p'. \<forall>rest. lex_string acc (replace_ops p (escape_char c @ E) @ rest) =
                      lex_string acc' (replace_ops p' E @ rest)"
proof -
  consider (quote) "c = CHR 0x22" | (backslash) "c = CHR 0x5C"
    | (named) "c \<in> {CHR 0x08, CHR 0x0C, CHR 0x0A, CHR 0x0D, CHR 0x09}"
    | (control) "c \<notin> {CHR 0x22, CHR 0x5C, CHR 0x08, CHR 0x0C, CHR 0x0A, CHR 0x0D, CHR 0x09}"
                "(of_char c :: nat) < 32"
    | (plain) "c \<notin> {CHR 0x22, CHR 0x5C, CHR 0x08, CHR 0x0C, CHR 0x0A, CHR 0x0D, CHR 0x09}"
              "\<not> (of_char c :: nat) < 32"
    by blast
  then show ?thesis
  proof cases
    case quote
    then have "\<forall>rest. lex_string acc (replace_ops p (escape_char c @ E) @ rest) =
                 lex_string (CHR 0x22 # acc) (replace_ops False E @ rest)"
      by (simp add: escape_char_def replace_ops_other is_word_def simple_escape_def
          del: replace_ops.simps(2))
    then show ?thesis by blast
  next
    case backslash
    then have "\<forall>rest. lex_string acc (replace_ops p (escape_char c @ E) @ rest) =
                 lex_string (CHR 0x5C # acc) (replace_ops False E @ rest)"
      by (simp add: escape_char_def replace_ops_other is_word_def simple_escape_def
          del: replace_ops.simps(2))
    then show ?thesis by blast
  next
    case named
    then have "\<forall>rest. lex_string acc (replace_ops p (escape_char c @ E) @ rest) =
                 lex_string (c # acc) (replace_ops True E @ rest)"
      by (auto simp add: escape_char_def replace_ops_other is_word_def simple_escape_def
          simp del: replace_ops.simps(2))
    then show ?thesis by blast
  next
    case control
    let ?h1 = "hex_digit (of_char c div 16)" and ?h2 = "hex_digit (of_char c mod 16)"
    from control have e: "escape_char c = [CHR 0x5C, CHR ''u'', CHR ''0'', CHR ''0'', ?h1, ?h2]"
      by (simp add: escape_char_def)
    have w: "is_word ?h2" using hex_digit_in[of "of_char c mod 16"] by (auto simp: is_word_def)
    have r: "replace_ops p (escape_char c @ E) =
               CHR 0x5C # CHR ''u'' # CHR ''0'' # CHR ''0'' # ?h1 # ?h2 # replace_ops True E"
      unfolding e
      by (simp add: replace_ops_other hex_digit_not_op w del: replace_ops.simps(2))
    obtain x y where "hex_value ?h1 = Some x" "hex_value ?h2 = Some y"
      using hex_value_digit by blast
    then have "unicode_escape (CHR ''0'') (CHR ''0'') ?h1 ?h2 = Some (char_of (16 * x + y))"
      by (simp add: unicode_escape_def hex_value_def)
    then have "\<forall>rest. lex_string acc (replace_ops p (escape_char c @ E) @ rest) =
                 lex_string (char_of (16 * x + y) # acc) (replace_ops True E @ rest)"
      unfolding r by (simp only: append_Cons lex_string_unicode) simp
    then show ?thesis by blast
  next
    case plain
    then have e: "escape_char c = [c]" by (simp add: escape_char_def)
    from plain have n: "c \<noteq> CHR 0x22" "c \<noteq> CHR 0x5C" by simp_all
    show ?thesis
    proof (cases "\<not> p \<and> op_at (c # E)")
      case True
      then have "\<forall>rest. lex_string acc (replace_ops p (escape_char c @ E) @ rest) =
                 lex_string (c # CHR ''$'' # acc) (replace_ops True E @ rest)"
        unfolding e using n plain(2) by simp
      then show ?thesis by blast
    next
      case False
      then have "\<forall>rest. lex_string acc (replace_ops p (escape_char c @ E) @ rest) =
                 lex_string (c # acc) (replace_ops (is_word c) E @ rest)"
        unfolding e using n plain(2) by auto
      then show ?thesis by blast
    qed
  qed
qed

lemma lex_content:
  "\<exists>t. \<forall>rest. lex_string acc (replace_ops p (concat (map escape_char s) @ [CHR 0x22]) @ rest) =
                 map_option (Cons (TString t)) (lex rest)"
proof (induction s arbitrary: acc p)
  case Nil
  have "replace_ops p [CHR 0x22] = [CHR 0x22]"
    by (simp add: replace_ops_other del: replace_ops.simps(2))
  then have "\<forall>rest. lex_string acc (replace_ops p (concat (map escape_char []) @ [CHR 0x22]) @ rest) =
                 map_option (Cons (TString (rev acc))) (lex rest)"
    by simp
  then show ?case by blast
next
  case (Cons c s)
  let ?E = "concat (map escape_char s) @ [CHR 0x22]"
  from unit_step[of acc p c ?E] obtain acc' p' where
    u: "\<And>rest. lex_string acc (replace_ops p (escape_char c @ ?E) @ rest) =
                      lex_string acc' (replace_ops p' ?E @ rest)" by blast
  from Cons.IH[of acc' p'] obtain t where
    t: "\<And>rest. lex_string acc' (replace_ops p' ?E @ rest) = map_option (Cons (TString t)) (lex rest)"
    by blast
  have "\<forall>rest. lex_string acc (replace_ops p (concat (map escape_char (c # s)) @ [CHR 0x22]) @ rest) =
                 map_option (Cons (TString t)) (lex rest)"
    using u t by simp
  then show ?case by blast
qed

lemma lex_quote:
  "\<exists>t. \<forall>rest. lex (replace_ops False (quote s) @ rest) = map_option (Cons (TString t)) (lex rest)"
proof -
  from lex_content[of "[]" False s] obtain t where
    t: "\<And>rest. lex_string [] (replace_ops False (concat (map escape_char s) @ [CHR 0x22]) @ rest) =
                 map_option (Cons (TString t)) (lex rest)" by blast
  have "replace_ops False (quote s) =
          CHR 0x22 # replace_ops False (concat (map escape_char s) @ [CHR 0x22])"
    by (simp add: quote_def replace_ops_other is_word_def del: replace_ops.simps(2))
  then have "\<forall>rest. lex (replace_ops False (quote s) @ rest) = map_option (Cons (TString t)) (lex rest)"
    using t by simp
  then show ?thesis by blast
qed

lemma lex_restring:
  "lex (replace_ops False (quote s) @ rest) = map_option (Cons (TString (restring s))) (lex rest)"
proof -
  from lex_quote[of s] obtain t where
    t: "\<And>rest. lex (replace_ops False (quote s) @ rest) = map_option (Cons (TString t)) (lex rest)"
    by blast
  from t[of "[]"] have "lex (replace_ops False (quote s)) = Some [TString t]" by simp
  then have "restring s = t" by (simp add: restring_def read_back_def)
  with t show ?thesis by simp
qed

text \<open>The text of a value yields the tokens of the value.\<close>

lemma append_single: "(@) [x] = (#) x"
  by (rule ext) simp

lemma lexes_to_append:
  assumes "lexes_to a ts" and "lexes_to b us"
  shows "lexes_to (a @ b) (ts @ us)"
proof -
  from assms have a: "a \<noteq> []" "\<not> is_word (last a)" and b: "b \<noteq> []" "\<not> is_word (last b)"
    by (simp_all add: lexes_to_def)
  have r: "replace_ops False (a @ b) = replace_ops False a @ replace_ops False b"
    by (rule replace_ops_append[OF a])
  have "\<And>rest. lex (replace_ops False (a @ b) @ rest) = map_option ((@) (ts @ us)) (lex rest)"
  proof -
    fix rest
    have "lex (replace_ops False (a @ b) @ rest) =
            lex (replace_ops False a @ (replace_ops False b @ rest))"
      by (simp add: r)
    also have "\<dots> = map_option ((@) ts) (lex (replace_ops False b @ rest))"
      using assms(1) by (simp add: lexes_to_def)
    also have "\<dots> = map_option ((@) ts) (map_option ((@) us) (lex rest))"
      using assms(2) by (simp add: lexes_to_def)
    also have "\<dots> = map_option ((@) (ts @ us)) (lex rest)"
      by (cases "lex rest") simp_all
    finally show "lex (replace_ops False (a @ b) @ rest) = map_option ((@) (ts @ us)) (lex rest)" .
  qed
  with a b show ?thesis by (simp add: lexes_to_def)
qed

lemma lexes_to_quote: "lexes_to (quote s) [TString (restring s)]"
proof -
  have "quote s \<noteq> []" and "\<not> is_word (last (quote s))"
    by (simp_all add: quote_def is_word_def)
  moreover have "\<And>rest. lex (replace_ops False (quote s) @ rest) =
                   map_option ((@) [TString (restring s)]) (lex rest)"
    by (simp add: lex_restring append_single)
  ultimately show ?thesis by (simp only: lexes_to_def simp_thms)
qed

lemma lexes_to_chars:
  "lexes_to ''['' [TLBracket]" "lexes_to '']'' [TRBracket]"
  "lexes_to ''{'' [TLBrace]" "lexes_to ''}'' [TRBrace]"
  "lexes_to '':'' [TColon]" "lexes_to '','' [TComma]"
  by (simp_all add: lexes_to_def is_word_def replace_ops_other append_single
      del: replace_ops.simps(2))

lemma lexes_to_join:
  assumes "xs \<noteq> []" and "\<And>x. x \<in> set xs \<Longrightarrow> lexes_to (f x) (g x)"
  shows "lexes_to (join '','' (map f xs)) (join [TComma] (map g xs))"
  using assms
proof (induction xs rule: induct_list012)
  case 1
  then show ?case by simp
next
  case (2 x)
  then show ?case by simp
next
  case (3 x y zs)
  have a: "lexes_to (f x) (g x)" by (rule 3(4)) simp
  have b: "lexes_to (join '','' (map f (y # zs))) (join [TComma] (map g (y # zs)))"
    by (rule 3(2)) (use 3(4) in simp_all)
  from lexes_to_append[OF a lexes_to_append[OF lexes_to_chars(6) b]]
  show ?case by simp
qed

lemma lexes_to_list:
  assumes "\<And>x. x \<in> set xs \<Longrightarrow> lexes_to (f x) (g x)"
    and "lexes_to l [t1]" and "lexes_to r [t2]"
  shows "lexes_to (l @ join '','' (map f xs) @ r) (t1 # join [TComma] (map g xs) @ [t2])"
proof (cases "xs = []")
  case True
  with lexes_to_append[OF assms(2,3)] show ?thesis by simp
next
  case False
  from lexes_to_append[OF assms(2) lexes_to_append[OF lexes_to_join[OF False assms(1)] assms(3)]]
  show ?thesis by simp
qed

lemma lexes_to_stringify: "lexes_to (stringify v) (tokens v)"
proof (induction v)
  case (QStr s)
  show ?case by (simp add: lexes_to_quote)
next
  case (QArr xs)
  have "lexes_to (''['' @ join '','' (map stringify xs) @ '']'')
                 (TLBracket # join [TComma] (map tokens xs) @ [TRBracket])"
    by (rule lexes_to_list) (rule QArr, assumption, (rule lexes_to_chars)+)
  then show ?case by simp
next
  case (QObj kvs)
  have m: "\<And>kv. kv \<in> set kvs \<Longrightarrow>
             lexes_to (quote (fst kv) @ '':'' @ stringify (snd kv))
                      (TString (restring (fst kv)) # TColon # tokens (snd kv))"
  proof -
    fix kv assume k: "kv \<in> set kvs"
    have s: "snd kv \<in> Basic_BNFs.snds kv" by (cases kv) simp
    have "lexes_to (stringify (snd kv)) (tokens (snd kv))"
      by (rule QObj[OF k s])
    from lexes_to_append[OF lexes_to_quote lexes_to_append[OF lexes_to_chars(5) this]]
    show "lexes_to (quote (fst kv) @ '':'' @ stringify (snd kv))
                   (TString (restring (fst kv)) # TColon # tokens (snd kv))"
      by simp
  qed
  have "lexes_to (''{'' @ join '','' (map (\<lambda>kv. quote (fst kv) @ '':'' @ stringify (snd kv)) kvs) @ ''}'')
          (TLBrace # join [TComma]
             (map (\<lambda>kv. TString (restring (fst kv)) # TColon # tokens (snd kv)) kvs) @ [TRBrace])"
    by (rule lexes_to_list) (rule m, assumption, (rule lexes_to_chars)+)
  then show ?case by simp
qed

lemma lex_replaced: "lex (replace_ops False (stringify v)) = Some (tokens v)"
  using lexes_to_stringify[of v] by (auto simp: lexes_to_def dest: spec[where x = "[]"])

text \<open>The machine builds the value from the tokens.\<close>

lemma run_append:
  "run (ts @ us) s = (case run ts s of None \<Rightarrow> None | Some s1 \<Rightarrow> run us s1)"
  by (induction ts arbitrary: s) (auto split: option.splits)

lemma buildsD:
  "builds ts v \<Longrightarrow> m = Value \<or> m = ValueOrEnd \<Longrightarrow>
     run (ts @ rest) (m, st) = (case put v st of None \<Rightarrow> None | Some s \<Rightarrow> run rest s)"
  unfolding builds_def by blast

lemma builds_string: "builds [TString t] (QStr t)"
  by (auto simp: builds_def split: option.splits)

lemma elements:
  assumes "xs \<noteq> []" and "\<And>x. x \<in> set xs \<Longrightarrow> builds (tokens x) (rewrite x)"
    and "m = Value \<or> m = ValueOrEnd"
  shows "run (join [TComma] (map tokens xs) @ TRBracket # rest) (m, ArrF acc # st) =
           (case put (QArr (rev acc @ map rewrite xs)) st of
              None \<Rightarrow> None | Some s \<Rightarrow> run rest s)"
  using assms
proof (induction xs arbitrary: acc m rule: induct_list012)
  case 1
  then show ?case by simp
next
  case (2 x)
  have b: "builds (tokens x) (rewrite x)" by (rule 2(2)) simp
  show ?case
    using buildsD[OF b 2(3), of "TRBracket # rest" "ArrF acc # st"] by simp
next
  case (3 x y zs)
  have b: "builds (tokens x) (rewrite x)" by (rule 3(4)) simp
  have ih: "run (join [TComma] (map tokens (y # zs)) @ TRBracket # rest)
                (Value, ArrF (rewrite x # acc) # st) =
              (case put (QArr (rev (rewrite x # acc) @ map rewrite (y # zs))) st of
                 None \<Rightarrow> None | Some s \<Rightarrow> run rest s)"
    by (rule 3(2)) (use 3(4) in simp_all)
  show ?case
    using buildsD[OF b 3(5), of "TComma # join [TComma] (map tokens (y # zs)) @ TRBracket # rest"
        "ArrF acc # st"] ih
    by simp
qed

lemma builds_array:
  assumes "\<And>x. x \<in> set xs \<Longrightarrow> builds (tokens x) (rewrite x)"
  shows "builds (tokens (QArr xs)) (rewrite (QArr xs))"
proof (cases "xs = []")
  case True
  then show ?thesis by (auto simp: builds_def)
next
  case False
  show ?thesis
    unfolding builds_def
  proof (intro allI impI)
    fix m st rest assume m: "m = Value \<or> m = ValueOrEnd"
    have "run (tokens (QArr xs) @ rest) (m, st) =
            run (join [TComma] (map tokens xs) @ TRBracket # rest) (ValueOrEnd, ArrF [] # st)"
      using m by auto
    also have "\<dots> = (case put (QArr (rev [] @ map rewrite xs)) st of
                         None \<Rightarrow> None | Some s \<Rightarrow> run rest s)"
      by (rule elements[OF False assms]) simp_all
    finally show "run (tokens (QArr xs) @ rest) (m, st) =
                    (case put (rewrite (QArr xs)) st of None \<Rightarrow> None | Some s \<Rightarrow> run rest s)"
      by simp
  qed
qed

lemma members:
  assumes "kvs \<noteq> []" and "\<And>kv. kv \<in> set kvs \<Longrightarrow> builds (tokens (snd kv)) (rewrite (snd kv))"
    and "m = Key \<or> m = KeyOrEnd"
  shows "run (join [TComma] (map (\<lambda>kv. TString (restring (fst kv)) # TColon # tokens (snd kv)) kvs)
               @ TRBrace # rest) (m, ObjF acc # st) =
           (case put (QObj (fold (\<lambda>kv a. set_key (restring (fst kv)) (rewrite (snd kv)) a) kvs acc)) st of
              None \<Rightarrow> None | Some s \<Rightarrow> run rest s)"
  using assms
proof (induction kvs arbitrary: acc m rule: induct_list012)
  case 1
  then show ?case by simp
next
  case (2 kv)
  have b: "builds (tokens (snd kv)) (rewrite (snd kv))" by (rule 2(2)) simp
  have k: "run (TString (restring (fst kv)) # TColon # tokens (snd kv) @ TRBrace # rest)
               (m, ObjF acc # st) =
           run (tokens (snd kv) @ TRBrace # rest) (Value, KeyF acc (restring (fst kv)) # st)"
    using 2(3) by auto
  show ?case
    using k buildsD[OF b, of Value "TRBrace # rest" "KeyF acc (restring (fst kv)) # st"]
    by simp
next
  case (3 kv y zs)
  have b: "builds (tokens (snd kv)) (rewrite (snd kv))" by (rule 3(4)) simp
  let ?more = "join [TComma] (map (\<lambda>kv. TString (restring (fst kv)) # TColon # tokens (snd kv)) (y # zs))
               @ TRBrace # rest"
  have k: "run (TString (restring (fst kv)) # TColon # tokens (snd kv) @ TComma # ?more)
               (m, ObjF acc # st) =
           run (tokens (snd kv) @ TComma # ?more) (Value, KeyF acc (restring (fst kv)) # st)"
    using 3(5) by auto
  have ih: "run ?more (Key, ObjF (set_key (restring (fst kv)) (rewrite (snd kv)) acc) # st) =
              (case put (QObj (fold (\<lambda>kv a. set_key (restring (fst kv)) (rewrite (snd kv)) a) (y # zs)
                                  (set_key (restring (fst kv)) (rewrite (snd kv)) acc))) st of
                 None \<Rightarrow> None | Some s \<Rightarrow> run rest s)"
    by (rule 3(2)) (use 3(4) in simp_all)
  show ?case
    using k buildsD[OF b, of Value "TComma # ?more" "KeyF acc (restring (fst kv)) # st"] ih
    by simp
qed

lemma builds_object:
  assumes "\<And>kv. kv \<in> set kvs \<Longrightarrow> builds (tokens (snd kv)) (rewrite (snd kv))"
  shows "builds (tokens (QObj kvs)) (rewrite (QObj kvs))"
proof (cases "kvs = []")
  case True
  then show ?thesis by (auto simp: builds_def)
next
  case False
  show ?thesis
    unfolding builds_def
  proof (intro allI impI)
    fix m st rest assume m: "m = Value \<or> m = ValueOrEnd"
    have "run (tokens (QObj kvs) @ rest) (m, st) =
            run (join [TComma] (map (\<lambda>kv. TString (restring (fst kv)) # TColon # tokens (snd kv)) kvs)
                 @ TRBrace # rest) (KeyOrEnd, ObjF [] # st)"
      using m by auto
    also have "\<dots> = (case put (QObj (fold (\<lambda>kv a. set_key (restring (fst kv)) (rewrite (snd kv)) a)
                                        kvs [])) st of
                         None \<Rightarrow> None | Some s \<Rightarrow> run rest s)"
      by (rule members[OF False assms]) simp_all
    finally show "run (tokens (QObj kvs) @ rest) (m, st) =
                    (case put (rewrite (QObj kvs)) st of None \<Rightarrow> None | Some s \<Rightarrow> run rest s)"
      by simp
  qed
qed

lemma builds_tokens: "builds (tokens v) (rewrite v)"
proof (induction v)
  case (QStr s)
  show ?case by (simp add: builds_string)
next
  case (QArr xs)
  show ?case by (rule builds_array) (rule QArr)
next
  case (QObj kvs)
  show ?case
  proof (rule builds_object)
    fix kv assume k: "kv \<in> set kvs"
    have s: "snd kv \<in> Basic_BNFs.snds kv" by (cases kv) simp
    show "builds (tokens (snd kv)) (rewrite (snd kv))" by (rule QObj[OF k s])
  qed
qed

lemma parse_replaced: "JSON_parse (replace_ops False (stringify v)) = Some (rewrite v)"
proof -
  from buildsD[OF builds_tokens[of v], where m = Value and rest = "[]" and st = "[]"]
  have "run (tokens v) (Value, []) = Some (Finished (rewrite v), [])" by simp
  then show ?thesis by (simp add: JSON_parse_def lex_replaced)
qed

text \<open>
  On a key or a string in which nothing is escaped, what is read back is the replacement
  itself.
\<close>

lemma escape_char_plain:
  "c \<noteq> CHR 0x22 \<Longrightarrow> c \<noteq> CHR 0x5C \<Longrightarrow> \<not> (of_char c :: nat) < 32 \<Longrightarrow> escape_char c = [c]"
  unfolding escape_char_def by auto

lemma escape_plain: "plain s \<Longrightarrow> concat (map escape_char s) = s"
  by (induction s) (simp_all add: plain_def escape_char_plain)

lemma op_at_closing:
  "op_at (t @ [CHR 0x22]) = op_at t"
proof
  assume "op_at (t @ [CHR 0x22])"
  then obtain m r where m: "m \<in> {''gte'', ''gt'', ''lte'', ''lt''}" and e: "t @ [CHR 0x22] = m @ r"
    and we: "word_ends r" unfolding op_at_iff by blast
  have "r \<noteq> []"
  proof
    assume "r = []"
    with e have "last m = CHR 0x22" by (metis append_Nil2 last_snoc)
    with m show False by auto
  qed
  then obtain r' where r': "r = r' @ [CHR 0x22]" "t = m @ r'"
    using e by (metis append_butlast_last_id butlast_append butlast_snoc last_appendR last_snoc)
  with we have "word_ends r'" by (cases r') (simp_all add: word_ends_def)
  with m r' show "op_at t" unfolding op_at_iff by blast
next
  assume "op_at t"
  then obtain m r where m: "m \<in> {''gte'', ''gt'', ''lte'', ''lt''}" and e: "t = m @ r"
    and we: "word_ends r" unfolding op_at_iff by blast
  from we have "word_ends (r @ [CHR 0x22])"
    by (cases r) (simp_all add: word_ends_def is_word_def)
  moreover from e have "t @ [CHR 0x22] = m @ (r @ [CHR 0x22])" by simp
  ultimately show "op_at (t @ [CHR 0x22])" using m unfolding op_at_iff by blast
qed

lemma replace_ops_closing:
  "replace_ops p (s @ [CHR 0x22]) = replace_ops p s @ [CHR 0x22]"
proof (induction s arbitrary: p)
  case Nil
  show ?case by (simp add: replace_ops_other del: replace_ops.simps(2))
next
  case (Cons c s)
  have "op_at ((c # s) @ [CHR 0x22]) = op_at (c # s)" by (rule op_at_closing)
  with Cons show ?case by simp
qed

lemma plain_replace: "plain s \<Longrightarrow> plain (replace_ops p s)"
proof (induction s arbitrary: p)
  case Nil
  show ?case by (simp add: plain_def)
next
  case (Cons c s)
  from Cons.prems have c: "c \<noteq> CHR 0x22 \<and> c \<noteq> CHR 0x5C \<and> \<not> (of_char c :: nat) < 32" and s: "plain s"
    by (simp_all add: plain_def)
  have t: "\<And>q. plain (replace_ops q s)" by (rule Cons.IH[OF s])
  have d: "plain [CHR ''$'']" by (simp add: plain_def)
  have a: "\<And>x xs. plain [x] \<Longrightarrow> plain xs \<Longrightarrow> plain (x # xs)" by (simp add: plain_def)
  from c have pc: "plain [c]" by (simp add: plain_def)
  show ?case
  proof (cases "\<not> p \<and> op_at (c # s)")
    case True
    then have "replace_ops p (c # s) = CHR ''$'' # c # replace_ops True s" by simp
    then show ?thesis by (simp only: a[OF d a[OF pc t]])
  next
    case False
    then have "replace_ops p (c # s) = c # replace_ops (is_word c) s" by auto
    then show ?thesis by (simp only: a[OF pc t])
  qed
qed

lemma lex_string_plain_text:
  "plain u \<Longrightarrow>
     lex_string acc (u @ CHR 0x22 # rest) = map_option (Cons (TString (rev acc @ u))) (lex rest)"
  by (induction u arbitrary: acc) (simp_all add: plain_def)

lemma restring_plain:
  assumes "plain s"
  shows "restring s = replace_ops False s"
proof -
  have "replace_ops False (quote s) = CHR 0x22 # replace_ops False s @ [CHR 0x22]"
    using assms
    by (simp add: quote_def escape_plain replace_ops_other is_word_def replace_ops_closing
        del: replace_ops.simps(2))
  moreover have "lex_string [] (replace_ops False s @ CHR 0x22 # []) =
                   map_option (Cons (TString (rev [] @ replace_ops False s))) (lex [])"
    by (rule lex_string_plain_text) (rule plain_replace[OF assms])
  ultimately have "lex (replace_ops False (quote s)) = Some [TString (replace_ops False s)]"
    by simp
  then show ?thesis by (simp add: restring_def read_back_def)
qed

lemma restring_examples:
  "restring ''gt'' = ''$gt''" "restring ''gte'' = ''$gte''" "restring ''amount'' = ''amount''"
  "restring ''description'' = ''description''" "restring ''100'' = ''100''"
  by code_simp+

text \<open>
  So the handler never fails to read the filter back, and the filter is \<open>rewrite\<close> of the
  query object without the excluded fields.
\<close>

lemma filter_read_back: "JSON_parse (queryStr q) = Some (rewrite (QObj (queryObj q)))"
  unfolding queryStr_def by (rule parse_replaced)

lemma build_query_sorted:
  "sort_of q = Inr sb \<Longrightarrow>
     build_query P q =
       Inr \<lparr>conditions = rewrite (QObj (queryObj q)), sort_spec = sb,
            q_skip = (page_of P q - 1) * limit_of P q, q_limit = limit_of P q\<rparr>"
  by (simp add: build_query_def filter_read_back)

subsection \<open>Listing\<close>






lemma field_list_payload:
  "field (RObj [(''status'', a), (''results'', b), (''total'', c), (''data'', d)]) ''totalPages'' = None"
  by simp



lemma sort_of_error: "sort_of q = Inl e \<Longrightarrow> e = ThrownError ''TypeError''"
  unfolding sort_of_def by (simp split: option.splits qv.splits if_splits)

text \<open>The only error of building the query is the one of a sort value with no \<^verbatim>\<open>split\<close>.\<close>

lemma build_query_no_SyntaxError: "build_query P q \<noteq> Inl (ThrownError ''SyntaxError'')"
proof (cases "sort_of q")
  case (Inl e)
  then have "e = ThrownError ''TypeError''" by (rule sort_of_error)
  with Inl show ?thesis by (simp add: build_query_def filter_read_back ThrownError_def)
next
  case (Inr sb)
  then show ?thesis by (simp add: build_query_sorted)
qed













text \<open>
  C5 fails on the code: the replacement runs over the whole JSON text, values included.
  The request \<^verbatim>\<open>?description=gt\<close> is turned into the filter
  \<^verbatim>\<open>{"description": "$gt"}\<close>, and the stored record whose description is \<^verbatim>\<open>gt\<close> is not
  found.
\<close>

theorem list_filter_value_rewritten:
  "description pay = ''gt'' \<and> pay \<in> set sample_db \<and>
   build_query sample_platform [(''description'', QStr ''gt'')] =
     Inr \<lparr>conditions = QObj [(''description'', QStr ''$gt'')], sort_spec = ''-date'',
          q_skip = 0, q_limit = 10\<rparr> \<and>
   list_records sample_platform [(''description'', QStr ''gt'')] sample_db =
     \<lparr>code = 200,
      payload = RObj [(''status'', RStr ''success''), (''results'', RNum 0), (''total'', RNum 0),
                      (''data'', RObj [(''records'', RArr [])])]\<rparr>"
  by code_simp

text \<open>
  On a key the replacement does what it is there for: \<^verbatim>\<open>?amount[gte]=100\<close> becomes the
  range condition \<^verbatim>\<open>{"amount": {"$gte": "100"}}\<close>.
\<close>

lemma list_operator_key_rewritten:
  "build_query sample_platform [(''amount'', QObj [(''gte'', QStr ''100'')])] =
     Inr \<lparr>conditions = QObj [(''amount'', QObj [(''$gte'', QStr ''100'')])], sort_spec = ''-date'',
          q_skip = 0, q_limit = 10\<rparr> \<and>
   list_records sample_platform [(''amount'', QObj [(''gte'', QStr ''100'')])] sample_db =
     \<lparr>code = 200,
      payload = RObj [(''status'', RStr ''success''), (''results'', RNum 2), (''total'', RNum 2),
                      (''data'', RObj [(''records'', RArr [RDoc gig, RDoc pay])])]\<rparr>"
  by code_simp



subsection \<open>Statistics and health\<close>







text \<open>
  The handler adds no order of its own: groups that the store takes to the sort in the
  order of their totals, equal totals included, come out as the store took them.
\<close>

lemma ties_keep_store_order:
  assumes "sorted (map (\<lambda>g. - group_total g) (group_order A gs))"
  shows "sort_total_desc A gs = group_order A gs"
  unfolding sort_total_desc_def using assms by (rule sort_key_id_if_sorted)


lemma stats_nonempty:
  assumes "db \<noteq> []"
  shows "payload (stats A db) =
     RObj [(''totalAmount'', RNum (acc_sum A (map amount db))),
           (''count'', RNum (of_nat (length db))),
           (''average'', RNum (round_to A (acc_avg A (map amount db)) 2)),
           (''categories'', RArr (map stat_reply (sort_total_desc A (group_by_category A db))))]"
  using assms
  by (simp add: stats_def group_all_def project_rounded_def summary_fields_def Let_def)



text \<open>
  The store of the examples rounds to a multiple of a hundredth that is at most half a
  hundredth away.
\<close>

lemma round_half_even_near: "\<bar>of_int (round_half_even y) - y\<bar> \<le> 1 / 2"
proof -
  have f: "of_int \<lfloor>y\<rfloor> \<le> y" "y < of_int \<lfloor>y\<rfloor> + 1" by linarith+
  show ?thesis
    unfolding round_half_even_def Let_def using f by (auto split: if_splits)
qed

lemma round_places_near: "\<bar>round_places x 2 - x\<bar> \<le> 1 / 200"
proof -
  have "\<bar>of_int (round_half_even (x * 100)) - x * 100\<bar> \<le> 1 / 2"
    by (rule round_half_even_near)
  then have "\<bar>(of_int (round_half_even (x * 100)) - x * 100) / 100\<bar> \<le> (1 / 2) / 100"
    by (simp only: abs_divide abs_numeral) (simp add: divide_le_cancel)
  then show ?thesis by (simp add: round_places_def diff_divide_distrib)
qed

lemma round_places_hundredths: "\<exists>k :: int. round_places x 2 = of_int k / 100"
  by (auto simp: round_places_def)

text \<open>
  With this store the summary is the claim's: the total is the sum of the amounts, and
  the average is a multiple of a hundredth at most half a hundredth away from their mean.
\<close>

lemma stats_exact_store:
  assumes "db \<noteq> []"
  shows "field (payload (stats exact_store db)) ''totalAmount'' =
           Some (RNum (sum_list (map amount db)))"
    and "field (payload (stats exact_store db)) ''average'' =
           Some (RNum (round_places (sum_list (map amount db) / of_nat (length db)) 2))"
    and "\<bar>round_places (sum_list (map amount db) / of_nat (length db)) 2 -
            sum_list (map amount db) / of_nat (length db)\<bar> \<le> 1 / 200"
    and "\<exists>k :: int. round_places (sum_list (map amount db) / of_nat (length db)) 2 =
            of_int k / 100"
proof -
  from assms show "field (payload (stats exact_store db)) ''totalAmount'' =
           Some (RNum (sum_list (map amount db)))"
    by (simp add: stats_nonempty exact_store_def)
  from assms show "field (payload (stats exact_store db)) ''average'' =
           Some (RNum (round_places (sum_list (map amount db) / of_nat (length db)) 2))"
    by (simp add: stats_nonempty exact_store_def mean_def)
  show "\<bar>round_places (sum_list (map amount db) / of_nat (length db)) 2 -
            sum_list (map amount db) / of_nat (length db)\<bar> \<le> 1 / 200"
    by (rule round_places_near)
  show "\<exists>k :: int. round_places (sum_list (map amount db) / of_nat (length db)) 2 =
            of_int k / 100"
    by (rule round_places_hundredths)
qed



lemma sample_stats:
  "payload (stats exact_store sample_db) =
     RObj [(''totalAmount'', RNum (2915 / 2)), (''count'', RNum 3),
           (''average'', RNum (48583 / 100)),
           (''categories'',
            RArr [RObj [(''_id'', RStr ''Salary''), (''total'', RNum 1200), (''count'', RNum 1)],
                  RObj [(''_id'', RStr ''Freelance''), (''total'', RNum (515 / 2)),
                        (''count'', RNum 2)]])]"
  by code_simp



lemma code_not_found: "code (not_found u) = 404"
  by (simp add: not_found_def)

text \<open>
  C9, as the code has it. The health handler of the earlier server answers 200 with the
  status \<^verbatim>\<open>running\<close>, a message and the time. \<^verbatim>\<open>server.js\<close> has no such route: there a
  request for \<^verbatim>\<open>/health\<close> falls through to the catch-all and is answered 404.
\<close>

theorem health_endpoint:
  "code (health now) = 200
   \<and> field (payload (health now)) ''status'' = Some (RStr ''running'')
   \<and> field (payload (health now)) ''message'' = Some (RStr ''Income Records API is operational'')
   \<and> field (payload (health now)) ''timestamp'' = Some (RTime now)
   \<and> (path req = [''health''] \<longrightarrow>
        server P now stamp oid req db = (db, not_found (url req)) \<and>
        code (not_found (url req)) = 404)"
  by (simp add: health_def server_def code_not_found)

text \<open>C9 at \<^verbatim>\<open>GET /health\<close>.\<close>

theorem health_endpoint_witness:
  "path \<lparr>verb = GET, path = [''health''], url = ''/health'', query = [], body = Map.empty\<rparr>
     = [''health''] \<and>
   server sample_platform 5 6 ''64b7f0c2a1d3e4f5a6b7c8dc''
     \<lparr>verb = GET, path = [''health''], url = ''/health'', query = [], body = Map.empty\<rparr> sample_db
     = (sample_db, not_found ''/health'') \<and>
   code (health 5) = 200"
  using health_endpoint[where req = "\<lparr>verb = GET, path = [''health''], url = ''/health'',
      query = [], body = Map.empty\<rparr>" and P = sample_platform and now = 5 and stamp = 6
      and oid = "''64b7f0c2a1d3e4f5a6b7c8dc''" and db = sample_db]
  by simp

text \<open>C9 as stated fails on \<^verbatim>\<open>server.js\<close>: \<^verbatim>\<open>GET /health\<close> is answered 404.\<close>

theorem health_route_counterexample:
  "code (snd (server sample_platform 5 6 ''64b7f0c2a1d3e4f5a6b7c8dc''
     \<lparr>verb = GET, path = [''health''], url = ''/health'', query = [], body = Map.empty\<rparr>
     sample_db)) = 404"
  by (simp add: server_def code_not_found)

end
